theory Spec2Isabelle
  imports Main
begin

section \<open>Python values\<close>

text \<open>
  A Python \<open>str\<close> is a sequence of Unicode code points, so it is modelled as a list of
  natural numbers; \<open>py ''abc''\<close> is the ASCII literal \<open>"abc"\<close>. Literals of the source
  with letters beyond ASCII are written out as code points.
\<close>

type_synonym pystr = "nat list"

abbreviation py :: "string \<Rightarrow> pystr" where
  "py s \<equiv> map of_char s"

text \<open>\<open>str.isspace\<close> of one character: the code points CPython treats as whitespace.\<close>

definition py_isspace :: "nat \<Rightarrow> bool" where
  "py_isspace c =
     ((9 \<le> c \<and> c \<le> 13) \<or> (28 \<le> c \<and> c \<le> 32) \<or> c = 133 \<or> c = 160 \<or> c = 5760 \<or>
      (8192 \<le> c \<and> c \<le> 8202) \<or> c = 8232 \<or> c = 8233 \<or> c = 8239 \<or> c = 8287 \<or> c = 12288)"

text \<open>\<open>s.strip()\<close>: whitespace removed at both ends.\<close>

definition py_strip :: "pystr \<Rightarrow> pystr" where
  "py_strip s = rev (dropWhile py_isspace (rev (dropWhile py_isspace s)))"

definition is_ascii :: "pystr \<Rightarrow> bool" where
  "is_ascii s = list_all (\<lambda>c. c < 128) s"

definition ascii_lower :: "nat \<Rightarrow> nat" where
  "ascii_lower c = (if 65 \<le> c \<and> c \<le> 90 then c + 32 else c)"

definition ascii_upper :: "nat \<Rightarrow> nat" where
  "ascii_upper c = (if 97 \<le> c \<and> c \<le> 122 then c - 32 else c)"

text \<open>
  \<open>s.lower()\<close> and \<open>s.upper()\<close>. On an ASCII string they map the 26 letters; on any other
  string they follow the Unicode case mapping of the Python runtime, which is library data
  and is taken as a parameter (\<open>ul\<close>, \<open>uu\<close>).
\<close>

definition py_lower :: "(pystr \<Rightarrow> pystr) \<Rightarrow> pystr \<Rightarrow> pystr" where
  "py_lower ul s = (if is_ascii s then map ascii_lower s else ul s)"

definition py_upper :: "(pystr \<Rightarrow> pystr) \<Rightarrow> pystr \<Rightarrow> pystr" where
  "py_upper uu s = (if is_ascii s then map ascii_upper s else uu s)"

text \<open>\<open>kw in p\<close> on strings: \<open>kw\<close> occurs in \<open>p\<close> as a contiguous substring.\<close>

fun startswith :: "pystr \<Rightarrow> pystr \<Rightarrow> bool" where
  "startswith p [] = True"
| "startswith [] (k # ks) = False"
| "startswith (c # cs) (k # ks) = (c = k \<and> startswith cs ks)"

fun py_in :: "pystr \<Rightarrow> pystr \<Rightarrow> bool" where
  "py_in kw [] = (kw = [])"
| "py_in kw (c # cs) = (startswith (c # cs) kw \<or> py_in kw cs)"

text \<open>
  Exceptions. \<open>LibraryError\<close> stands for any exception raised inside a library or an
  external call (HTTP client, file system, JSON decoder), carrying its message. All of
  them are instances of \<open>Exception\<close>, which is what the handlers of the source catch;
  the cancellation of a task and the exit of the interpreter are not modelled.
\<close>

datatype exn =
    RuntimeError pystr
  | KeyError pystr
  | TypeError pystr
  | AttributeError pystr
  | LibraryError pystr

text \<open>\<open>str(e)\<close>; for a \<open>KeyError\<close> it is the quoted key.\<close>

fun str_exn :: "exn \<Rightarrow> pystr" where
  "str_exn (RuntimeError m) = m"
| "str_exn (KeyError k) = [39] @ k @ [39]"
| "str_exn (TypeError m) = m"
| "str_exn (AttributeError m) = m"
| "str_exn (LibraryError m) = m"

text \<open>Decoded JSON, as \<open>json.loads\<close> and \<open>resp.json()\<close> return it (numbers are integers here).\<close>

datatype json =
    JNull
  | JBool bool
  | JNum int
  | JStr pystr
  | JArr "json list"
  | JObj "(pystr \<times> json) list"

text \<open>Python truthiness of a decoded JSON value.\<close>

fun truthy :: "json \<Rightarrow> bool" where
  "truthy JNull = False"
| "truthy (JBool b) = b"
| "truthy (JNum n) = (n \<noteq> 0)"
| "truthy (JStr s) = (s \<noteq> [])"
| "truthy (JArr xs) = (xs \<noteq> [])"
| "truthy (JObj kvs) = (kvs \<noteq> [])"

text \<open>
  \<open>v[:200]\<close> is defined on strings and lists; on every other value it raises, with the
  message CPython gives for the type of \<open>v\<close>.
\<close>

fun sliceable :: "json \<Rightarrow> bool" where
  "sliceable (JStr s) = True"
| "sliceable (JArr xs) = True"
| "sliceable v = False"

fun slice_error :: "json \<Rightarrow> exn" where
  "slice_error JNull = TypeError ([39] @ py ''NoneType'' @ [39] @ py '' object is not subscriptable'')"
| "slice_error (JBool b) = TypeError ([39] @ py ''bool'' @ [39] @ py '' object is not subscriptable'')"
| "slice_error (JNum n) = TypeError ([39] @ py ''int'' @ [39] @ py '' object is not subscriptable'')"
| "slice_error v = TypeError (py ''unhashable type: '' @ [39] @ py ''slice'' @ [39])"

section \<open>Intent classifier (backend/utils.py)\<close>

abbreviation NEW :: pystr where "NEW \<equiv> py ''NEW''"
abbreviation EDIT :: pystr where "EDIT \<equiv> py ''EDIT''"

definition edit_keywords :: "pystr list" where
  "edit_keywords =
     [py ''edit'', py ''remove'', py ''erase'', py ''delete'', py ''change'', py ''fix'',
      py ''replace'', py ''add '', py ''add something'', py ''make her'', py ''make him'',
      py ''remove text'',
      [120, 243, 97], [120, 111, 225], [115, 7917, 97], [99, 104, 7881, 110, 104]]"

text \<open>The loop \<open>for kw in edit_keywords: if kw in p: return "EDIT"\<close>, then \<open>return "NEW"\<close>.\<close>

fun scan_keywords :: "pystr list \<Rightarrow> pystr \<Rightarrow> pystr" where
  "scan_keywords [] p = NEW"
| "scan_keywords (kw # kws) p = (if py_in kw p then EDIT else scan_keywords kws p)"

definition fallback_rule :: "(pystr \<Rightarrow> pystr) \<Rightarrow> pystr \<Rightarrow> pystr" where
  "fallback_rule ul p = scan_keywords edit_keywords (py_lower ul p)"

text \<open>
  The outcome of one HTTP request: the client raises (timeout, transport error), or a
  response arrives with a status code and a body; the body either decodes as JSON or
  decoding it raises.
\<close>

datatype http_outcome =
    Raises exn
  | Reply int "exn + json"

text \<open>
  What the classifier depends on: the Ollama endpoint (answering the stripped prompt that
  is embedded in the instruction text), \<open>json.loads\<close>, and the Unicode case mappings.
\<close>

record classifier_env =
  ollama_generate :: "pystr \<Rightarrow> http_outcome"
  json_loads :: "pystr \<Rightarrow> json option"
  unicode_lower :: "pystr \<Rightarrow> pystr"
  unicode_upper :: "pystr \<Rightarrow> pystr"

text \<open>\<open>text = (body or {}).get("response", "") or ""\<close>\<close>

definition response_text :: "json \<Rightarrow> exn + json" where
  "response_text body =
     (if \<not> truthy body then Inr (JStr [])
      else case body of
        JObj kvs \<Rightarrow>
          (case map_of kvs (py ''response'') of
             None \<Rightarrow> Inr (JStr [])
           | Some v \<Rightarrow> Inr (if truthy v then v else JStr []))
      | _ \<Rightarrow> Inl (AttributeError (py ''get'')))"

text \<open>
  The first \<open>try\<close> block of \<open>classify_mode\<close>: post, \<open>raise_for_status\<close> on a status other
  than 200 (it raises from 400 on), decode the body, read the text.
\<close>

definition call_ollama :: "classifier_env \<Rightarrow> pystr \<Rightarrow> exn + json" where
  "call_ollama env p =
     (case ollama_generate env (py_strip p) of
        Raises e \<Rightarrow> Inl e
      | Reply st body \<Rightarrow>
          if st \<noteq> 200 \<and> 400 \<le> st then Inl (LibraryError (py ''ClientResponseError''))
          else (case body of Inl e \<Rightarrow> Inl e | Inr b \<Rightarrow> response_text b))"

text \<open>
  \<open>re.search(r"\{[\s\S]*\}", text)\<close>: the leftmost, longest match runs from the first
  opening brace to the last closing brace after it.
\<close>

definition search_braces :: "pystr \<Rightarrow> pystr option" where
  "search_braces t =
     (case dropWhile (\<lambda>c. c \<noteq> 123) t of
        [] \<Rightarrow> None
      | b # rest \<Rightarrow>
          if 125 \<in> set rest then Some (b # rev (dropWhile (\<lambda>c. c \<noteq> 125) (rev rest)))
          else None)"

text \<open>
  The second \<open>try\<close> block. \<open>Inr (Some m)\<close> is \<open>return mode_val\<close>, \<open>Inr None\<close> is one of the
  two \<open>return self._fallback_rule(prompt)\<close> inside the block, \<open>Inl e\<close> is an exception
  raised inside the block.
\<close>

definition parse_mode :: "classifier_env \<Rightarrow> json \<Rightarrow> exn + pystr option" where
  "parse_mode env text =
     (case text of
        JStr t \<Rightarrow>
          (case search_braces t of
             None \<Rightarrow> Inr None
           | Some frag \<Rightarrow>
               (case json_loads env frag of
                  None \<Rightarrow> Inl (LibraryError (py ''JSONDecodeError''))
                | Some (JObj kvs) \<Rightarrow>
                    (case (case map_of kvs (py ''mode'') of None \<Rightarrow> JStr [] | Some v \<Rightarrow> v) of
                       JStr m \<Rightarrow>
                         (let mode_val = py_upper (unicode_upper env) (py_strip m)
                          in if mode_val \<noteq> NEW \<and> mode_val \<noteq> EDIT then Inr None
                             else Inr (Some mode_val))
                     | _ \<Rightarrow> Inl (AttributeError (py ''strip'')))
                | Some _ \<Rightarrow> Inl (AttributeError (py ''get''))))
      | _ \<Rightarrow> Inl (TypeError (py ''expected string or bytes-like object'')))"

text \<open>
  \<open>classify_mode\<close>. The result comes with the list of requests posted to Ollama. The
  handler of the second \<open>try\<close> formats \<open>text[:200]\<close> into its log line before it
  returns the fallback, so it raises itself when \<open>text\<close> cannot be sliced.
\<close>

definition classify_mode :: "classifier_env \<Rightarrow> pystr \<Rightarrow> (exn + pystr) \<times> pystr list" where
  "classify_mode env p =
     (if p = [] \<or> py_strip p = [] then (Inr NEW, [])
      else
        (case call_ollama env p of
           Inl e \<Rightarrow> (Inr (fallback_rule (unicode_lower env) p), [py_strip p])
         | Inr text \<Rightarrow>
             (case parse_mode env text of
                Inr (Some mode_val) \<Rightarrow> (Inr mode_val, [py_strip p])
              | Inr None \<Rightarrow> (Inr (fallback_rule (unicode_lower env) p), [py_strip p])
              | Inl e \<Rightarrow>
                  if sliceable text
                  then (Inr (fallback_rule (unicode_lower env) p), [py_strip p])
                  else (Inl (slice_error text), [py_strip p]))))"

section \<open>State store and dispatch queue\<close>

text \<open>
  The store holds three families of keys, disjoint by their prefixes: \<open>job:{job_id}\<close>
  with the JSON of a job record, \<open>last_image:{user_id}\<close> with a plain URL, and the list
  \<open>image_jobs\<close>. Each family is a field of the state, and an operation that succeeds is a
  lookup or an update of a map. The operations below are the successful ones; intake is
  modelled with a store that answers, and the worker asks its environment, before each
  operation, whether the operation raises.
\<close>

datatype status = Waiting | Processing | Done | Error

record job_record =
  status :: status
  image_url :: "pystr option"
  error_message :: "pystr option"

text \<open>
  An element of the queue is a string; \<open>json.loads\<close> either rejects it or decodes it.
  \<open>JsonObject\<close> is an object whose values are all strings, given by its items, one for
  each key: this is what intake writes. \<open>JsonValue\<close> is any decoded value.
\<close>

datatype queue_entry =
    NotJson pystr
  | JsonObject "(pystr \<times> pystr) list"
  | JsonValue json

text \<open>What was done to the outside world, in order.\<close>

datatype event =
    SetJob pystr job_record
  | SetLastImage pystr pystr
  | LPush queue_entry
  | BRPop queue_entry
  | ClassifyMode pystr
  | OllamaPost pystr

record world =
  jobs :: "pystr \<rightharpoonup> job_record"
  last_image :: "pystr \<rightharpoonup> pystr"
  queue :: "queue_entry list"
  uuids_drawn :: nat
  trace :: "event list"

definition set_job :: "pystr \<Rightarrow> job_record \<Rightarrow> world \<Rightarrow> world" where
  "set_job jid r w = w\<lparr>jobs := (jobs w)(jid \<mapsto> r), trace := trace w @ [SetJob jid r]\<rparr>"

definition set_last_image :: "pystr \<Rightarrow> pystr \<Rightarrow> world \<Rightarrow> world" where
  "set_last_image uid url w =
     w\<lparr>last_image := (last_image w)(uid \<mapsto> url), trace := trace w @ [SetLastImage uid url]\<rparr>"

definition lpush :: "queue_entry \<Rightarrow> world \<Rightarrow> world" where
  "lpush e w = w\<lparr>queue := e # queue w, trace := trace w @ [LPush e]\<rparr>"

text \<open>\<open>not last_img\<close>: the key is absent or holds the empty string.\<close>

definition falsy :: "pystr option \<Rightarrow> bool" where
  "falsy v = (case v of None \<Rightarrow> True | Some s \<Rightarrow> s = [])"

section \<open>Intake (backend/model.py, backend/app.py)\<close>

record GenerateRequest =
  user_id :: pystr
  prompt :: pystr
  mode :: "pystr option"

datatype api_error =
    HTTPException int pystr
  | Unhandled exn

text \<open>
  Validation of the request body against the declaration of \<open>GenerateRequest\<close>:
  \<open>mode: Optional[Literal["NEW", "EDIT"]] = None\<close>. A body whose fields have other types
  is outside this model.
\<close>

definition validate_request :: "GenerateRequest \<Rightarrow> api_error + GenerateRequest" where
  "validate_request body =
     (case mode body of
        None \<Rightarrow> Inr body
      | Some m \<Rightarrow>
          if m = NEW \<or> m = EDIT then Inr body
          else Inl (HTTPException 422 (py ''Input should be NEW or EDIT'')))"

record GenerateResponse =
  job_id :: pystr
  resp_status :: status

record intake_env =
  classifier :: classifier_env
  gen_job_id :: "nat \<Rightarrow> pystr"

text \<open>The detail of the 400 response, as code points.\<close>

definition empty_prompt_detail :: pystr where
  "empty_prompt_detail =
     [80, 114, 111, 109, 112, 116, 32, 107, 104, 244, 110, 103, 32, 273, 432, 7907, 99, 32,
      273, 7875, 32, 116, 114, 7889, 110, 103]"

text \<open>
  Lines 35 to 46 of \<open>generate\<close>: the mode of the job. \<open>classify_mode\<close> has no path that
  returns \<open>None\<close>, so the test \<open>if mode is None\<close> after it never fires.
\<close>

definition resolve_mode :: "intake_env \<Rightarrow> world \<Rightarrow> GenerateRequest \<Rightarrow> (exn + pystr) \<times> world" where
  "resolve_mode env w req =
     (case mode req of
        Some m \<Rightarrow> (Inr m, w)
      | None \<Rightarrow>
          if falsy (last_image w (user_id req)) then (Inr NEW, w)
          else
            (case classify_mode (classifier env) (prompt req) of
               (r, posts) \<Rightarrow>
                 (r, w\<lparr>trace := trace w @ [ClassifyMode (prompt req)] @ map OllamaPost posts\<rparr>)))"

definition waiting_record :: job_record where
  "waiting_record = \<lparr>status = Waiting, image_url = None, error_message = None\<rparr>"

definition job_data_of :: "pystr \<Rightarrow> GenerateRequest \<Rightarrow> pystr \<Rightarrow> (pystr \<times> pystr) list" where
  "job_data_of jid req m =
     [(py ''job_id'', jid), (py ''user_id'', user_id req), (py ''prompt'', prompt req),
      (py ''mode'', m)]"

definition generate :: "intake_env \<Rightarrow> world \<Rightarrow> GenerateRequest \<Rightarrow> (api_error + GenerateResponse) \<times> world" where
  "generate env w req =
     (if py_strip (prompt req) = [] then (Inl (HTTPException 400 empty_prompt_detail), w)
      else
        (case resolve_mode env w req of
           (Inl e, w1) \<Rightarrow> (Inl (Unhandled e), w1)
         | (Inr m, w1) \<Rightarrow>
             (let jid = gen_job_id env (uuids_drawn w1);
                  w2 = w1\<lparr>uuids_drawn := Suc (uuids_drawn w1)\<rparr>;
                  w3 = set_job jid waiting_record w2;
                  w4 = lpush (JsonObject (job_data_of jid req m)) w3
              in (Inr \<lparr>job_id = jid, resp_status = Waiting\<rparr>, w4))))"

text \<open>The endpoint: the framework validates the body, then calls \<open>generate\<close>.\<close>

definition post_generate :: "intake_env \<Rightarrow> world \<Rightarrow> GenerateRequest \<Rightarrow> (api_error + GenerateResponse) \<times> world" where
  "post_generate env w body =
     (case validate_request body of
        Inl e \<Rightarrow> (Inl e, w)
      | Inr req \<Rightarrow> generate env w req)"

section \<open>Generation engine adapter (backend/comfy_client.py)\<close>

text \<open>
  One poll of \<open>/history/{prompt_id}\<close>: the request raises, or a response arrives with a
  status code and a body; the body decodes to a dictionary from run identifiers to history
  items, or reading it as one raises.
\<close>

record image =
  filename :: "pystr option"
  subfolder :: "pystr option"
  img_type :: "pystr option"

text \<open>
  A history item: its \<open>outputs\<close> if the key is there, an ordered map from node identifiers
  to node outputs; of a node output, its \<open>images\<close> if the key is there.
\<close>

type_synonym node_out = "image list option"
type_synonym history_item = "(pystr \<times> node_out) list option"

datatype poll =
    PollRaises exn
  | PollReply int "exn + (pystr \<times> history_item) list"

text \<open>
  \<open>wait_for_result\<close>: the loop \<open>while True\<close>. The engine is the sequence of its answers
  to the successive polls; \<open>n\<close> counts the polls made so far. A run of the loop that never
  returns has the value \<open>None\<close>.
\<close>

partial_function (option) wait_for_result :: "(nat \<Rightarrow> poll) \<Rightarrow> pystr \<Rightarrow> nat \<Rightarrow> (exn + history_item) option" where
  "wait_for_result history prompt_id n =
     (case history n of
        PollRaises e \<Rightarrow> Some (Inl e)
      | PollReply st body \<Rightarrow>
          if st = 200 then
            (case body of
               Inl e \<Rightarrow> Some (Inl e)
             | Inr data \<Rightarrow>
                 (case map_of data prompt_id of
                    Some item \<Rightarrow> Some (Inr item)
                  | None \<Rightarrow> wait_for_result history prompt_id (Suc n)))
          else wait_for_result history prompt_id (Suc n))"

text \<open>A poll after which the loop sleeps and polls again.\<close>

definition pending :: "pystr \<Rightarrow> poll \<Rightarrow> bool" where
  "pending prompt_id r =
     (case r of
        PollRaises e \<Rightarrow> False
      | PollReply st body \<Rightarrow>
          st \<noteq> 200 \<or> (case body of Inl e \<Rightarrow> False | Inr data \<Rightarrow> map_of data prompt_id = None))"

text \<open>The loop over \<open>outputs.items()\<close> in \<open>extract_first_image_from_history\<close>.\<close>

fun scan_outputs :: "(pystr \<times> node_out) list \<Rightarrow> (pystr \<times> pystr \<times> pystr) option" where
  "scan_outputs [] = None"
| "scan_outputs ((node_id, None) # rest) = scan_outputs rest"
| "scan_outputs ((node_id, Some []) # rest) = scan_outputs rest"
| "scan_outputs ((node_id, Some (img # others)) # rest) =
     (if \<not> falsy (filename img)
      then Some (the (filename img),
                 (case subfolder img of None \<Rightarrow> [] | Some s \<Rightarrow> s),
                 (case img_type img of None \<Rightarrow> py ''output'' | Some t \<Rightarrow> t))
      else scan_outputs rest)"

definition extract_first_image_from_history :: "history_item \<Rightarrow> (pystr \<times> pystr \<times> pystr) option" where
  "extract_first_image_from_history history_item =
     scan_outputs (case history_item of None \<Rightarrow> [] | Some outputs \<Rightarrow> outputs)"

text \<open>\<open>build_image_url\<close>; \<open>base\<close> is \<open>settings.COMFYUI_URL\<close>.\<close>

definition rstrip_slash :: "pystr \<Rightarrow> pystr" where
  "rstrip_slash s = rev (dropWhile (\<lambda>c. c = 47) (rev s))"

definition build_image_url :: "pystr \<Rightarrow> pystr \<Rightarrow> pystr \<Rightarrow> pystr \<Rightarrow> pystr" where
  "build_image_url base fname subf ty =
     rstrip_slash base @ py ''/view?filename='' @ fname @ py ''&subfolder='' @ subf
       @ py ''&type='' @ ty"

section \<open>Worker (backend/worker.py)\<close>

text \<open>
  What a worker depends on besides the contents of the store. The workflow builders, the
  debug dump, the staging of the source image and the submission to the engine are opaque:
  each returns its result or raises. Every operation on the store and every line printed
  can raise as well: \<open>redis_raises\<close> says so for an operation, given what was done to the
  store before, and \<open>print_raises\<close> for a line. \<open>str_of\<close> is \<open>str(v)\<close> for a value that is
  not a string, as an f-string formats it.
\<close>

datatype redis_op =
    OpSetJob pystr job_record
  | OpSetLastImage pystr pystr
  | OpGetLastImage pystr
  | OpBRPop

text \<open>The lines \<open>worker.py\<close> prints, by the values they are formatted from.\<close>

datatype log_line =
    LogStarted
  | LogInvalidJson pystr
  | LogDequeued "json option"
  | LogProcessing json json json
  | LogPreparing pystr
  | LogImageReady pystr
  | LogPrepareFailed exn
  | LogSending json
  | LogWorkflowSize nat
  | LogSavedDebug
  | LogWaiting pystr
  | LogHistoryKeys history_item
  | LogImageUrl pystr
  | LogCompleted json
  | LogError json exn
  | LogTraceback exn

record worker_env =
  build_gen_workflow :: "json \<Rightarrow> json \<Rightarrow> exn + json"
  build_edit_workflow :: "json \<Rightarrow> pystr \<Rightarrow> json \<Rightarrow> exn + json"
  copy_image_for_edit :: "pystr \<Rightarrow> exn + pystr"
  save_debug_workflow :: "json \<Rightarrow> pystr \<Rightarrow> exn option"
  send_workflow_to_comfy :: "json \<Rightarrow> json \<Rightarrow> exn + pystr"
  history_polls :: "pystr \<Rightarrow> nat \<Rightarrow> poll"
  COMFYUI_URL :: pystr
  redis_raises :: "event list \<Rightarrow> redis_op \<Rightarrow> exn option"
  print_raises :: "log_line \<Rightarrow> exn option"
  str_of :: "json \<Rightarrow> pystr"

definition processing_record :: job_record where
  "processing_record = \<lparr>status = Processing, image_url = None, error_message = None\<rparr>"

definition done_record :: "pystr \<Rightarrow> job_record" where
  "done_record url = \<lparr>status = Done, image_url = Some url, error_message = None\<rparr>"

definition error_record :: "exn \<Rightarrow> job_record" where
  "error_record e = \<lparr>status = Error, image_url = None, error_message = Some (str_exn e)\<rparr>"

text \<open>The message of the \<open>RuntimeError\<close> raised when no image is found, as code points.\<close>

definition no_output_message :: pystr where
  "no_output_message =
     [75, 104, 244, 110, 103, 32, 116, 236, 109, 32, 116, 104, 7845, 121, 32, 7843, 110, 104,
      32, 111, 117, 116, 112, 117, 116, 32, 116, 114, 111, 110, 103, 32, 104, 105, 115, 116,
      111, 114, 121, 32, 67, 111, 109, 102, 121, 85, 73]"

text \<open>A value inside an f-string: a string as it is, any other value by \<open>str\<close>.\<close>

definition format_value :: "worker_env \<Rightarrow> json \<Rightarrow> pystr" where
  "format_value env v = (case v of JStr s \<Rightarrow> s | _ \<Rightarrow> str_of env v)"

text \<open>\<open>v[:n]\<close>, \<open>len(v)\<close>, \<open>d[k]\<close> and \<open>d.get(k)\<close> on decoded JSON.\<close>

fun py_slice :: "nat \<Rightarrow> json \<Rightarrow> exn + json" where
  "py_slice n (JStr s) = Inr (JStr (take n s))"
| "py_slice n (JArr xs) = Inr (JArr (take n xs))"
| "py_slice n v = Inl (slice_error v)"

fun py_len :: "json \<Rightarrow> exn + nat" where
  "py_len (JStr s) = Inr (length s)"
| "py_len (JArr xs) = Inr (length xs)"
| "py_len (JObj kvs) = Inr (length kvs)"
| "py_len v = Inl (TypeError (py ''object has no len()''))"

definition subscript :: "json \<Rightarrow> pystr \<Rightarrow> exn + json" where
  "subscript d k =
     (case d of
        JObj kvs \<Rightarrow> (case map_of kvs k of None \<Rightarrow> Inl (KeyError k) | Some v \<Rightarrow> Inr v)
      | _ \<Rightarrow> Inl (TypeError (py ''not subscriptable by a string'')))"

definition py_get :: "json \<Rightarrow> pystr \<Rightarrow> exn + json option" where
  "py_get d k =
     (case d of
        JObj kvs \<Rightarrow> Inr (map_of kvs k)
      | _ \<Rightarrow> Inl (AttributeError (py ''get'')))"

text \<open>A step that returns nothing, followed by the rest.\<close>

definition after :: "exn option \<Rightarrow> exn + 'a \<Rightarrow> exn + 'a" where
  "after r rest = (case r of Some e \<Rightarrow> Inl e | None \<Rightarrow> rest)"

text \<open>
  The operations of the worker on the store. An operation that raises is taken to have
  had no effect on the store.
\<close>

definition redis_set_job :: "worker_env \<Rightarrow> pystr \<Rightarrow> job_record \<Rightarrow> world \<Rightarrow> exn + world" where
  "redis_set_job env key r w =
     (case redis_raises env (trace w) (OpSetJob key r) of
        Some e \<Rightarrow> Inl e
      | None \<Rightarrow> Inr (set_job key r w))"

definition redis_set_last_image :: "worker_env \<Rightarrow> pystr \<Rightarrow> pystr \<Rightarrow> world \<Rightarrow> exn + world" where
  "redis_set_last_image env key url w =
     (case redis_raises env (trace w) (OpSetLastImage key url) of
        Some e \<Rightarrow> Inl e
      | None \<Rightarrow> Inr (set_last_image key url w))"

definition redis_get_last_image :: "worker_env \<Rightarrow> world \<Rightarrow> pystr \<Rightarrow> exn + pystr option" where
  "redis_get_last_image env w key =
     (case redis_raises env (trace w) (OpGetLastImage key) of
        Some e \<Rightarrow> Inl e
      | None \<Rightarrow> Inr (last_image w key))"

text \<open>Lines 31 to 34: the four fields, in the order the code reads them.\<close>

definition read_fields :: "json \<Rightarrow> exn + json \<times> json \<times> json \<times> json" where
  "read_fields job_data =
     (case subscript job_data (py ''job_id'') of
        Inl e \<Rightarrow> Inl e
      | Inr jid \<Rightarrow>
     (case subscript job_data (py ''user_id'') of
        Inl e \<Rightarrow> Inl e
      | Inr uid \<Rightarrow>
     (case subscript job_data (py ''mode'') of
        Inl e \<Rightarrow> Inl e
      | Inr m \<Rightarrow>
     (case subscript job_data (py ''prompt'') of
        Inl e \<Rightarrow> Inl e
      | Inr p \<Rightarrow> Inr (jid, uid, m, p)))))"

text \<open>
  Lines 56 to 59, the inner \<open>try\<close>: stage the source image, print, build the edit
  workflow.
\<close>

definition stage_and_build :: "worker_env \<Rightarrow> pystr \<Rightarrow> json \<Rightarrow> json \<Rightarrow> exn + json" where
  "stage_and_build env last_img p jid =
     (case copy_image_for_edit env last_img of
        Inl e \<Rightarrow> Inl e
      | Inr fname \<Rightarrow>
          after (print_raises env (LogImageReady fname)) (build_edit_workflow env p fname jid))"

text \<open>
  Lines 45 to 65: the workflow of the job. The handler of the inner \<open>try\<close> prints and
  raises a \<open>RuntimeError\<close> in place of what it caught.
\<close>

definition prepare_workflow :: "worker_env \<Rightarrow> world \<Rightarrow> json \<Rightarrow> json \<Rightarrow> json \<Rightarrow> json \<Rightarrow> exn + json" where
  "prepare_workflow env w jid uid m p =
     (if m = JStr NEW then build_gen_workflow env p jid
      else
        (case redis_get_last_image env w (format_value env uid) of
           Inl e \<Rightarrow> Inl e
         | Inr last_img \<Rightarrow>
             if falsy last_img then build_gen_workflow env p jid
             else
               after (print_raises env (LogPreparing (the last_img)))
                 (case stage_and_build env (the last_img) p jid of
                    Inr workflow \<Rightarrow> Inr workflow
                  | Inl e \<Rightarrow>
                      after (print_raises env (LogPrepareFailed e))
                        (after (print_raises env (LogTraceback e))
                           (Inl (RuntimeError
                                   (py ''Cannot prepare image for edit: '' @ str_exn e)))))))"

text \<open>Lines 67 to 80: the log lines, the debug dump and the submission.\<close>

definition submit :: "worker_env \<Rightarrow> json \<Rightarrow> json \<Rightarrow> json \<Rightarrow> exn + pystr" where
  "submit env jid m workflow =
     after (print_raises env (LogSending jid))
       (case py_len workflow of
          Inl e \<Rightarrow> Inl e
        | Inr n \<Rightarrow>
            after (print_raises env (LogWorkflowSize n))
              (case py_slice 8 jid of
                 Inl e \<Rightarrow> Inl e
               | Inr short \<Rightarrow>
                   after (save_debug_workflow env workflow
                            (py ''debug_'' @ format_value env m @ py ''_''
                               @ format_value env short @ py ''.json''))
                     (after (print_raises env LogSavedDebug)
                        (case send_workflow_to_comfy env workflow jid of
                           Inl e \<Rightarrow> Inl e
                         | Inr prompt_id \<Rightarrow>
                             after (print_raises env (LogWaiting prompt_id))
                               (Inr prompt_id)))))"

text \<open>Lines 67 to 82: up to the history item; \<open>None\<close> when the wait never ends.\<close>

definition submit_and_wait :: "worker_env \<Rightarrow> json \<Rightarrow> json \<Rightarrow> json \<Rightarrow> (exn + history_item) option" where
  "submit_and_wait env jid m workflow =
     (case submit env jid m workflow of
        Inl e \<Rightarrow> Some (Inl e)
      | Inr prompt_id \<Rightarrow>
          (case wait_for_result (history_polls env prompt_id) prompt_id 0 of
             None \<Rightarrow> None
           | Some (Inl e) \<Rightarrow> Some (Inl e)
           | Some (Inr history_item) \<Rightarrow>
               Some (after (print_raises env (LogHistoryKeys history_item))
                       (Inr history_item))))"

text \<open>Lines 83 to 89: from the history item to the image URL.\<close>

definition locate_image :: "worker_env \<Rightarrow> history_item \<Rightarrow> exn + pystr" where
  "locate_image env history_item =
     (case extract_first_image_from_history history_item of
        None \<Rightarrow> Inl (RuntimeError no_output_message)
      | Some (fname, subf, ty) \<Rightarrow>
          after (print_raises env (LogImageUrl (build_image_url (COMFYUI_URL env) fname subf ty)))
            (Inr (build_image_url (COMFYUI_URL env) fname subf ty)))"

text \<open>Lines 45 to 89 together; nothing is written to the store in them.\<close>

definition produce_image :: "worker_env \<Rightarrow> world \<Rightarrow> json \<Rightarrow> json \<Rightarrow> json \<Rightarrow> json \<Rightarrow> (exn + pystr) option" where
  "produce_image env w jid uid m p =
     (case prepare_workflow env w jid uid m p of
        Inl e \<Rightarrow> Some (Inl e)
      | Inr workflow \<Rightarrow>
          (case submit_and_wait env jid m workflow of
             None \<Rightarrow> None
           | Some (Inl e) \<Rightarrow> Some (Inl e)
           | Some (Inr history_item) \<Rightarrow> Some (locate_image env history_item)))"

text \<open>
  Lines 91 to 105: the pointer of the user, then the \<open>done\<close> record, then a log line. The
  result is the exception raised, if any, and the store as it is at that moment.
\<close>

definition record_success :: "worker_env \<Rightarrow> world \<Rightarrow> json \<Rightarrow> json \<Rightarrow> pystr \<Rightarrow> exn option \<times> world" where
  "record_success env w jid uid url =
     (case redis_set_last_image env (format_value env uid) url w of
        Inl e \<Rightarrow> (Some e, w)
      | Inr w1 \<Rightarrow>
          (case redis_set_job env (format_value env jid) (done_record url) w1 of
             Inl e \<Rightarrow> (Some e, w1)
           | Inr w2 \<Rightarrow> (print_raises env (LogCompleted jid), w2)))"

text \<open>
  The body of the \<open>try\<close> statement of \<open>process_job\<close>, lines 45 to 105: the exception it
  raises, if any, with the store at that moment; \<open>None\<close> when the wait never ends.
\<close>

definition guarded_steps :: "worker_env \<Rightarrow> world \<Rightarrow> json \<Rightarrow> json \<Rightarrow> json \<Rightarrow> json \<Rightarrow> (exn option \<times> world) option" where
  "guarded_steps env w jid uid m p =
     (case produce_image env w jid uid m p of
        None \<Rightarrow> None
      | Some (Inl e) \<Rightarrow> Some (Some e, w)
      | Some (Inr url) \<Rightarrow> Some (record_success env w jid uid url))"

text \<open>Lines 107 to 121, the handler: two log lines, then the \<open>error\<close> record.\<close>

definition handle_failure :: "worker_env \<Rightarrow> world \<Rightarrow> json \<Rightarrow> exn \<Rightarrow> exn option \<times> world" where
  "handle_failure env w jid e =
     (case print_raises env (LogError jid e) of
        Some e' \<Rightarrow> (Some e', w)
      | None \<Rightarrow>
          (case print_raises env (LogTraceback e) of
             Some e' \<Rightarrow> (Some e', w)
           | None \<Rightarrow>
               (case redis_set_job env (format_value env jid) (error_record e) w of
                  Inl e' \<Rightarrow> (Some e', w)
                | Inr w' \<Rightarrow> (None, w'))))"

text \<open>
  \<open>process_job\<close>. Before the \<open>try\<close> statement the four fields are read (31 to 34), the
  first log line is formatted from \<open>prompt[:50]\<close> and printed (36), and the \<open>processing\<close>
  record is written (39 to 42): an exception there leaves the function. The result is the
  exception that leaves the function, if any, with the store the function leaves behind.
\<close>

definition process_job :: "worker_env \<Rightarrow> world \<Rightarrow> json \<Rightarrow> (exn option \<times> world) option" where
  "process_job env w job_data =
     (case read_fields job_data of
        Inl e \<Rightarrow> Some (Some e, w)
      | Inr (jid, uid, m, p) \<Rightarrow>
     (case py_slice 50 p of
        Inl e \<Rightarrow> Some (Some e, w)
      | Inr shown \<Rightarrow>
     (case print_raises env (LogProcessing jid m shown) of
        Some e \<Rightarrow> Some (Some e, w)
      | None \<Rightarrow>
     (case redis_set_job env (format_value env jid) processing_record w of
        Inl e \<Rightarrow> Some (Some e, w)
      | Inr w1 \<Rightarrow>
          (case guarded_steps env w1 jid uid m p of
             None \<Rightarrow> None
           | Some (None, w2) \<Rightarrow> Some (None, w2)
           | Some (Some e, w2) \<Rightarrow> Some (handle_failure env w2 jid e))))))"

text \<open>
  \<open>worker_loop\<close>. \<open>brpop\<close> takes the entry at the right end of the list and blocks on an
  empty list; the model stops there. An entry that is not JSON is logged and skipped;
  \<open>job_data.get\<close> in the next log line raises on a value that is not an object. Nothing
  in the loop catches what \<open>brpop\<close>, the log lines or \<open>process_job\<close> raise.
\<close>

datatype loop_end =
    Blocked world
  | Crashed exn world

definition brpop :: "world \<Rightarrow> queue_entry \<times> world" where
  "brpop w =
     (last (queue w),
      w\<lparr>queue := butlast (queue w), trace := trace w @ [BRPop (last (queue w))]\<rparr>)"

text \<open>\<open>json.loads\<close> of a queue element that it accepts.\<close>

fun decoded :: "queue_entry \<Rightarrow> json" where
  "decoded (JsonObject kvs) = JObj (map (\<lambda>(k, v). (k, JStr v)) kvs)"
| "decoded (JsonValue v) = v"
| "decoded (NotJson s) = JNull"

text \<open>Lines 136 to 138: what the loop does with a decoded entry.\<close>

definition dispatch :: "worker_env \<Rightarrow> world \<Rightarrow> json \<Rightarrow> (exn option \<times> world) option" where
  "dispatch env w job_data =
     (case py_get job_data (py ''job_id'') of
        Inl e \<Rightarrow> Some (Some e, w)
      | Inr v \<Rightarrow>
          (case print_raises env (LogDequeued v) of
             Some e \<Rightarrow> Some (Some e, w)
           | None \<Rightarrow> process_job env w job_data))"

function serve :: "worker_env \<Rightarrow> world \<Rightarrow> loop_end option" where
  "serve env w =
     (if queue w = [] then Some (Blocked w)
      else
        (case redis_raises env (trace w) OpBRPop of
           Some e \<Rightarrow> Some (Crashed e w)
         | None \<Rightarrow>
             (case brpop w of
                (NotJson s, w1) \<Rightarrow>
                  (case print_raises env (LogInvalidJson s) of
                     Some e \<Rightarrow> Some (Crashed e w1)
                   | None \<Rightarrow> serve env w1)
              | (entry, w1) \<Rightarrow>
                  (case dispatch env w1 (decoded entry) of
                     None \<Rightarrow> None
                   | Some (Some e, w2) \<Rightarrow> Some (Crashed e w2)
                   | Some (None, w2) \<Rightarrow> serve env w2))))"
  by pat_completeness auto
termination
proof -
  have recorded: "queue w' = queue w"
    if "record_success env w jid uid url = (x, w')" for env w jid uid url x w'
    using that
    by (auto simp: record_success_def redis_set_last_image_def redis_set_job_def
                   set_job_def set_last_image_def
             split: sum.splits option.splits)
  have guarded: "queue w' = queue w"
    if "guarded_steps env w jid uid m p = Some (x, w')" for env w jid uid m p x w'
    using that
    by (auto simp: guarded_steps_def split: sum.splits option.splits dest: recorded)
  have handled: "queue w' = queue w"
    if "handle_failure env w jid e = (x, w')" for env w jid e x w'
    using that
    by (auto simp: handle_failure_def redis_set_job_def set_job_def
             split: sum.splits option.splits)
  have processed: "queue w' = queue w"
    if "process_job env w jd = Some (x, w')" for env w jd x w'
  proof (cases "read_fields jd")
    case (Inl e)
    with that show ?thesis by (simp add: process_job_def)
  next
    case (Inr fields)
    obtain jid uid m p where fields: "fields = (jid, uid, m, p)" by (cases fields) auto
    show ?thesis
    proof (cases "py_slice 50 p")
      case (Inl e)
      with that Inr fields show ?thesis by (simp add: process_job_def)
    next
      case shown: (Inr shown)
      show ?thesis
      proof (cases "print_raises env (LogProcessing jid m shown)")
        case (Some e)
        with that Inr fields shown show ?thesis by (simp add: process_job_def)
      next
        case None
        show ?thesis
        proof (cases "redis_set_job env (format_value env jid) processing_record w")
          case (Inl e)
          with that Inr fields shown None show ?thesis by (simp add: process_job_def)
        next
          case w1: (Inr w1)
          then have q1: "queue w1 = queue w"
            by (auto simp: redis_set_job_def set_job_def split: option.splits)
          show ?thesis
          proof (cases "guarded_steps env w1 jid uid m p")
            case none: None
            with that Inr fields shown None w1 show ?thesis by (simp add: process_job_def)
          next
            case (Some r)
            obtain y w2 where r: "r = (y, w2)" by (cases r) auto
            from guarded [of env w1 jid uid m p y w2] Some r q1
            have q2: "queue w2 = queue w" by simp
            show ?thesis
            proof (cases y)
              case ok: None
              with that Inr fields shown None w1 Some r have "w' = w2"
                by (simp add: process_job_def)
              with q2 show ?thesis by simp
            next
              case (Some e)
              with that Inr fields shown None w1 \<open>guarded_steps env w1 jid uid m p = Some r\<close> r
              have "handle_failure env w2 jid e = (x, w')" by (simp add: process_job_def)
              from handled [OF this] q2 show ?thesis by simp
            qed
          qed
        qed
      qed
    qed
  qed
  have kept: "queue w' = queue w"
    if "dispatch env w jd = Some (x, w')" for env w jd x w'
    using that
    by (auto simp: dispatch_def split: sum.splits option.splits dest: processed)
  show ?thesis
  proof (relation "measure (\<lambda>(env, w). length (queue w))", goal_cases)
    case 1
    show ?case by simp
  next
    case 2
    then show ?case by (auto simp: brpop_def)
  next
    case 3
    then show ?case by (auto simp: brpop_def dest!: kept)
  next
    case 4
    then show ?case by (auto simp: brpop_def dest!: kept)
  qed
qed

declare serve.simps [simp del]

text \<open>Lines 124 to 138: the client and the first log line, then the loop.\<close>

definition worker_loop :: "worker_env \<Rightarrow> world \<Rightarrow> loop_end option" where
  "worker_loop env w =
     (case print_raises env LogStarted of
        Some e \<Rightarrow> Some (Crashed e w)
      | None \<Rightarrow> serve env w)"

section \<open>Concrete scenarios\<close>

text \<open>Inputs at which the theorems below are evaluated.\<close>

text \<open>An engine that answers every poll with status 200 and an empty history.\<close>

definition never_ready :: "nat \<Rightarrow> poll" where
  "never_ready n = PollReply 200 (Inr [])"

text \<open>An engine whose third answer holds the run \<open>run-1\<close>.\<close>

definition sample_item :: history_item where
  "sample_item =
     Some [(py ''9'', Some [\<lparr>filename = Some (py ''out.png''), subfolder = Some [],
                             img_type = Some (py ''output'')\<rparr>])]"

definition ready_on_third :: "nat \<Rightarrow> poll" where
  "ready_on_third n =
     (if n < 2 then PollReply 200 (Inr []) else PollReply 200 (Inr [(py ''run-1'', sample_item)]))"

text \<open>
  A classifier endpoint that answers 200 with the JSON body \<open>{"response": 5}\<close>, and one
  that answers with the text \<open>{"mode": "edit"}\<close>.
\<close>

definition numeric_reply :: classifier_env where
  "numeric_reply =
     \<lparr>ollama_generate = (\<lambda>p. Reply 200 (Inr (JObj [(py ''response'', JNum 5)]))),
      json_loads = (\<lambda>t. None),
      unicode_lower = id,
      unicode_upper = id\<rparr>"

definition edit_reply :: classifier_env where
  "edit_reply =
     \<lparr>ollama_generate =
        (\<lambda>p. Reply 200 (Inr (JObj [(py ''response'', JStr (py ''{mode: edit}''))]))),
      json_loads = (\<lambda>t. Some (JObj [(py ''mode'', JStr (py ''edit''))])),
      unicode_lower = id,
      unicode_upper = id\<rparr>"

definition job_ids :: "nat \<Rightarrow> pystr" where
  "job_ids n = py ''job-'' @ [48 + n]"

definition intake_numeric :: intake_env where
  "intake_numeric = \<lparr>classifier = numeric_reply, gen_job_id = job_ids\<rparr>"

definition intake_edit :: intake_env where
  "intake_edit = \<lparr>classifier = edit_reply, gen_job_id = job_ids\<rparr>"


definition world_with_image :: world where
  "world_with_image =
     \<lparr>jobs = Map.empty, last_image = [py ''u1'' \<mapsto> py ''http://127.0.0.1:8188/view?filename=a.png&subfolder=&type=output''],
      queue = [], uuids_drawn = 0, trace = []\<rparr>"

definition request_cat :: GenerateRequest where
  "request_cat = \<lparr>user_id = py ''u1'', prompt = py ''a cat'', mode = None\<rparr>"



text \<open>
  A worker whose collaborators all succeed, with an engine that holds any run at its third
  answer; and the same worker with an engine that rejects every submission.
\<close>

definition engine_polls :: "pystr \<Rightarrow> nat \<Rightarrow> poll" where
  "engine_polls pid n =
     (if n < 2 then PollReply 200 (Inr []) else PollReply 200 (Inr [(pid, sample_item)]))"

definition sample_worker :: worker_env where
  "sample_worker =
     \<lparr>build_gen_workflow = (\<lambda>p jid. Inr (JObj [])),
      build_edit_workflow = (\<lambda>p fname jid. Inr (JObj [])),
      copy_image_for_edit = (\<lambda>url. Inr (py ''out.png'')),
      save_debug_workflow = (\<lambda>workflow fname. None),
      send_workflow_to_comfy = (\<lambda>workflow client_id. Inr (py ''run-1'')),
      history_polls = engine_polls,
      COMFYUI_URL = py ''http://127.0.0.1:8188'',
      redis_raises = (\<lambda>tr op. None),
      print_raises = (\<lambda>line. None),
      str_of = (\<lambda>v. py ''?'')\<rparr>"

definition rejecting_worker :: worker_env where
  "rejecting_worker =
     sample_worker\<lparr>send_workflow_to_comfy :=
       (\<lambda>workflow client_id. Inl (LibraryError (py ''400 Bad Request'')))\<rparr>"

text \<open>The same worker with a store that refuses every \<open>done\<close> record.\<close>

definition refuses_done :: "event list \<Rightarrow> redis_op \<Rightarrow> exn option" where
  "refuses_done tr op =
     (case op of
        OpSetJob key r \<Rightarrow>
          if status r = Done then Some (LibraryError (py ''Connection reset'')) else None
      | _ \<Rightarrow> None)"

definition done_refused_worker :: worker_env where
  "done_refused_worker = sample_worker\<lparr>redis_raises := refuses_done\<rparr>"

text \<open>
  Queue entries: two job descriptors, an object without the field \<open>mode\<close>, and an object
  whose prompt is the number 5.
\<close>

definition entry_a :: "(pystr \<times> pystr) list" where
  "entry_a = [(py ''job_id'', py ''job-0''), (py ''user_id'', py ''u1''),
              (py ''prompt'', py ''a cat''), (py ''mode'', NEW)]"

definition entry_b :: "(pystr \<times> pystr) list" where
  "entry_b = [(py ''job_id'', py ''job-1''), (py ''user_id'', py ''u1''),
              (py ''prompt'', py ''remove the hat''), (py ''mode'', EDIT)]"


definition queued_world :: world where
  "queued_world =
     \<lparr>jobs = [py ''job-0'' \<mapsto> waiting_record, py ''job-1'' \<mapsto> waiting_record],
      last_image = Map.empty,
      queue = [JsonObject entry_b, JsonObject entry_a],
      uuids_drawn = 2, trace = []\<rparr>"

definition entry_numeric_prompt :: json where
  "entry_numeric_prompt =
     JObj [(py ''job_id'', JStr (py ''job-3'')), (py ''user_id'', JStr (py ''u1'')),
           (py ''prompt'', JNum 5), (py ''mode'', JStr NEW)]"


definition numeric_queue_world :: world where
  "numeric_queue_world =
     \<lparr>jobs = Map.empty, last_image = Map.empty,
      queue = [JsonObject entry_b, JsonValue entry_numeric_prompt],
      uuids_drawn = 0, trace = []\<rparr>"

definition sample_url :: pystr where
  "sample_url = py ''http://127.0.0.1:8188/view?filename=out.png&subfolder=&type=output''"




section \<open>Properties of records, traces and queue entries\<close>

text \<open>
  The consistency of a job record: the two result fields are never both set, neither is
  set before a terminal status, and a terminal status sets exactly its own field.
\<close>

definition record_ok :: "job_record \<Rightarrow> bool" where
  "record_ok r =
     (\<not> (image_url r \<noteq> None \<and> error_message r \<noteq> None)
      \<and> ((status r = Waiting \<or> status r = Processing) \<longrightarrow>
            image_url r = None \<and> error_message r = None)
      \<and> (status r = Done \<longrightarrow> image_url r \<noteq> None \<and> error_message r = None)
      \<and> (status r = Error \<longrightarrow> image_url r = None \<and> error_message r \<noteq> None))"

text \<open>The job records written along a trace, and the calls to the classifier along it.\<close>

fun written_records :: "event list \<Rightarrow> job_record list" where
  "written_records [] = []"
| "written_records (SetJob jid r # evs) = r # written_records evs"
| "written_records (ev # evs) = written_records evs"


text \<open>The keys of the store an event writes: of the job \<open>jid\<close> and of the user \<open>uid\<close> only.\<close>

fun writes_only :: "pystr \<Rightarrow> pystr \<Rightarrow> event \<Rightarrow> bool" where
  "writes_only jid uid (SetJob j r) = (j = jid)"
| "writes_only jid uid (SetLastImage u url) = (u = uid)"
| "writes_only jid uid ev = False"



text \<open>The key of the job record of a decoded entry.\<close>

definition job_key :: "worker_env \<Rightarrow> json \<Rightarrow> pystr" where
  "job_key env job_data =
     (case read_fields job_data of
        Inl e \<Rightarrow> []
      | Inr (jid, uid, m, p) \<Rightarrow> format_value env jid)"

text \<open>
  An environment in which nothing raises outside the \<open>try\<close> statement of \<open>process_job\<close>:
  the store accepts the pops, the \<open>processing\<close> records and the \<open>error\<close> records, and
  the lines of the loop, the first line of \<open>process_job\<close> and the lines of its handler
  can be printed. And an environment in which the store and the console never raise.
\<close>

definition outside_try_ok :: "worker_env \<Rightarrow> bool" where
  "outside_try_ok env =
     ((\<forall>tr. redis_raises env tr OpBRPop = None)
      \<and> (\<forall>tr key. redis_raises env tr (OpSetJob key processing_record) = None)
      \<and> (\<forall>tr key e. redis_raises env tr (OpSetJob key (error_record e)) = None)
      \<and> print_raises env LogStarted = None
      \<and> (\<forall>s. print_raises env (LogInvalidJson s) = None)
      \<and> (\<forall>v. print_raises env (LogDequeued v) = None)
      \<and> (\<forall>jid m shown. print_raises env (LogProcessing jid m shown) = None)
      \<and> (\<forall>jid e. print_raises env (LogError jid e) = None)
      \<and> (\<forall>e. print_raises env (LogTraceback e) = None))"

definition quiet :: "worker_env \<Rightarrow> bool" where
  "quiet env =
     ((\<forall>tr op. redis_raises env tr op = None) \<and> (\<forall>line. print_raises env line = None))"

text \<open>A job whose record in the store has a terminal status.\<close>

definition terminal :: "world \<Rightarrow> pystr \<Rightarrow> bool" where
  "terminal w key =
     (case jobs w key of None \<Rightarrow> False | Some r \<Rightarrow> status r = Done \<or> status r = Error)"

text \<open>
  A queue entry that has been served in \<open>w\<close>: the record of its job has a terminal
  status. An entry that is not JSON names no job.
\<close>

fun served :: "worker_env \<Rightarrow> world \<Rightarrow> queue_entry \<Rightarrow> bool" where
  "served env w (NotJson s) = True"
| "served env w entry = terminal w (job_key env (decoded entry))"




text \<open>
  From \<open>w\<close> to \<open>w'\<close> the job records \<open>rs\<close> were written, in this order, and every job
  record of the store that changed is one of them.
\<close>

definition wrote :: "world \<Rightarrow> world \<Rightarrow> job_record list \<Rightarrow> bool" where
  "wrote w w' rs =
     (written_records (trace w') = written_records (trace w) @ rs
      \<and> (\<forall>j. jobs w' j = jobs w j \<or> (\<exists>r \<in> set rs. jobs w' j = Some r)))"

section \<open>The fallback rule\<close>

lemma startswith_iff: "startswith p k \<longleftrightarrow> (\<exists>s. p = k @ s)"
  by (induction p k rule: startswith.induct) auto

lemma py_in_iff: "py_in kw p \<longleftrightarrow> (\<exists>a b. p = a @ kw @ b)"
proof (induction p)
  case Nil
  then show ?case by auto
next
  case (Cons c cs)
  show ?case
  proof
    assume "py_in kw (c # cs)"
    then consider "startswith (c # cs) kw" | "py_in kw cs" by auto
    then show "\<exists>a b. c # cs = a @ kw @ b"
    proof cases
      case 1
      then obtain s where "c # cs = kw @ s" by (auto simp: startswith_iff)
      then have "c # cs = [] @ kw @ s" by simp
      then show ?thesis by blast
    next
      case 2
      then obtain a b where "cs = a @ kw @ b" using Cons.IH by blast
      then have "c # cs = (c # a) @ kw @ b" by simp
      then show ?thesis by blast
    qed
  next
    assume "\<exists>a b. c # cs = a @ kw @ b"
    then obtain a b where ab: "c # cs = a @ kw @ b" by blast
    show "py_in kw (c # cs)"
    proof (cases a)
      case Nil
      with ab have "startswith (c # cs) kw" by (auto simp: startswith_iff)
      then show ?thesis by simp
    next
      case (Cons x a')
      with ab have "cs = a' @ kw @ b" by simp
      then have "py_in kw cs" using Cons.IH by blast
      then show ?thesis by simp
    qed
  qed
qed

lemma scan_keywords_iff:
  "scan_keywords kws p = (if \<exists>kw \<in> set kws. py_in kw p then EDIT else NEW)"
  by (induction kws) auto

lemma fallback_remove: "fallback_rule ul (py ''remove the hat'') = EDIT"
  by (simp add: fallback_rule_def py_lower_def is_ascii_def ascii_lower_def edit_keywords_def)

lemma fallback_cat: "fallback_rule ul (py ''a cat on the moon'') = NEW"
  by (simp add: fallback_rule_def py_lower_def is_ascii_def ascii_lower_def edit_keywords_def)

lemma fallback_empty: "fallback_rule ul [] = NEW"
  by (simp add: fallback_rule_def py_lower_def is_ascii_def ascii_lower_def edit_keywords_def)

text \<open>
  Claim C8. The fallback rule is a function of the prompt alone: it lower-cases the prompt
  and returns EDIT exactly when one of the fixed edit keywords occurs in it as a
  substring, NEW otherwise. It maps "remove the hat" to EDIT, and "a cat on the moon" and
  the empty prompt to NEW.
\<close>

theorem fallback_rule_keywords:
  "fallback_rule ul p =
     (if \<exists>kw \<in> set edit_keywords. \<exists>a b. py_lower ul p = a @ kw @ b then EDIT else NEW)
   \<and> fallback_rule ul (py ''remove the hat'') = EDIT
   \<and> fallback_rule ul (py ''a cat on the moon'') = NEW
   \<and> fallback_rule ul [] = NEW"
  unfolding py_in_iff [symmetric]
  using fallback_remove fallback_cat fallback_empty
  by (simp add: fallback_rule_def scan_keywords_iff)

text \<open>The rule at "Fix it" (a keyword occurs after lower-casing) and at "A dog" (none does).\<close>

theorem fallback_rule_keywords_witness:
  "(\<exists>kw \<in> set edit_keywords. \<exists>a b. py_lower id (py ''Fix it'') = a @ kw @ b)
   \<and> fallback_rule id (py ''Fix it'') = EDIT
   \<and> \<not> (\<exists>kw \<in> set edit_keywords. \<exists>a b. py_lower id (py ''A dog'') = a @ kw @ b)
   \<and> fallback_rule id (py ''A dog'') = NEW"
proof -
  have e: "fallback_rule id (py ''Fix it'') = EDIT"
    by (simp add: fallback_rule_def py_lower_def is_ascii_def ascii_lower_def edit_keywords_def)
  have n: "fallback_rule id (py ''A dog'') = NEW"
    by (simp add: fallback_rule_def py_lower_def is_ascii_def ascii_lower_def edit_keywords_def)
  from e fallback_rule_keywords [of id "py ''Fix it''"]
  have 1: "\<exists>kw \<in> set edit_keywords. \<exists>a b. py_lower id (py ''Fix it'') = a @ kw @ b"
    by (simp split: if_splits)
  from n fallback_rule_keywords [of id "py ''A dog''"]
  have 2: "\<not> (\<exists>kw \<in> set edit_keywords. \<exists>a b. py_lower id (py ''A dog'') = a @ kw @ b)"
    by (simp split: if_splits)
  from 1 2 e n show ?thesis by blast
qed

section \<open>Waiting for the engine\<close>

lemma wait_pending_step:
  "pending pid (history n) \<Longrightarrow>
     wait_for_result history pid n = wait_for_result history pid (Suc n)"
  by (subst wait_for_result.simps)
     (auto simp: pending_def split: poll.splits sum.splits option.splits)

lemma wait_skip_pending:
  "(\<forall>i<k. pending pid (history (n + i))) \<Longrightarrow>
     wait_for_result history pid n = wait_for_result history pid (n + k)"
proof (induction k)
  case 0
  show ?case by simp
next
  case (Suc k)
  then have "wait_for_result history pid n = wait_for_result history pid (n + k)" by simp
  also have "\<dots> = wait_for_result history pid (Suc (n + k))"
    using Suc.prems by (intro wait_pending_step) simp
  finally show ?case by simp
qed

lemma wait_found:
  "history n = PollReply 200 (Inr data) \<Longrightarrow> map_of data pid = Some item \<Longrightarrow>
     wait_for_result history pid n = Some (Inr item)"
  by (subst wait_for_result.simps) simp

lemma wait_raises:
  "history n = PollRaises e \<Longrightarrow> wait_for_result history pid n = Some (Inl e)"
  by (subst wait_for_result.simps) simp

lemma wait_bad_body:
  "history n = PollReply 200 (Inl e) \<Longrightarrow> wait_for_result history pid n = Some (Inl e)"
  by (subst wait_for_result.simps) simp

lemma wait_returns_not_pending:
  "wait_for_result history pid n = Some r \<Longrightarrow> \<exists>k\<ge>n. \<not> pending pid (history k)"
proof (induction rule: wait_for_result.raw_induct [rotated, consumes 1])
  case (1 f history pid n r)
  show ?case
  proof (cases "pending pid (history n)")
    case False
    then have "n \<le> n \<and> \<not> pending pid (history n)" by simp
    then show ?thesis by (intro exI [of _ n])
  next
    case True
    have "f history pid (Suc n) = Some r"
    proof (cases "history n")
      case (PollRaises e)
      with True show ?thesis by (simp add: pending_def)
    next
      case (PollReply st body)
      show ?thesis
      proof (cases "st = 200")
        case False
        with 1(2) PollReply show ?thesis by simp
      next
        case st: True
        with True PollReply obtain data where "body = Inr data" "map_of data pid = None"
          by (cases body) (auto simp: pending_def)
        with 1(2) PollReply st show ?thesis by simp
      qed
    qed
    from 1(1) [OF this] have "\<exists>k. Suc n \<le> k \<and> \<not> pending pid (history k)" .
    then obtain k where "Suc n \<le> k \<and> \<not> pending pid (history k)" ..
    then have "n \<le> k \<and> \<not> pending pid (history k)" by simp
    then show ?thesis by (intro exI [of _ k])
  qed
qed


lemma wait_forever:
  assumes "\<forall>i. pending pid (history i)"
  shows "wait_for_result history pid n = None"
proof (cases "wait_for_result history pid n")
  case None
  then show ?thesis .
next
  case (Some r)
  from wait_returns_not_pending [OF this] obtain k where "\<not> pending pid (history k)"
    by (elim exE conjE)
  with assms show ?thesis by simp
qed

lemma wait_stops:
  assumes "\<not> pending pid (history n)"
  shows "\<exists>r. wait_for_result history pid n = Some r"
proof (cases "history n")
  case (PollRaises e)
  then show ?thesis by (simp add: wait_raises)
next
  case (PollReply st body)
  with assms have st: "st = 200" by (simp add: pending_def)
  show ?thesis
  proof (cases body)
    case (Inl e)
    with PollReply st show ?thesis by (simp add: wait_bad_body)
  next
    case (Inr data)
    with assms PollReply st obtain item where "map_of data pid = Some item"
      by (auto simp: pending_def)
    with PollReply st Inr show ?thesis by (simp add: wait_found)
  qed
qed

lemma wait_returns:
  "\<not> pending pid (history k) \<Longrightarrow> n \<le> k \<Longrightarrow> \<exists>r. wait_for_result history pid n = Some r"
proof (induction "k - n" arbitrary: n)
  case 0
  then have "n = k" by simp
  with 0(2) have "\<not> pending pid (history n)" by simp
  then show ?case by (rule wait_stops)
next
  case (Suc d)
  show ?case
  proof (cases "pending pid (history n)")
    case False
    then show ?thesis by (rule wait_stops)
  next
    case True
    from Suc(2,4) have "d = k - Suc n" "Suc n \<le> k" by simp_all
    from Suc(1) [OF this(1) Suc(3) this(2)]
    obtain r where "wait_for_result history pid (Suc n) = Some r" by blast
    with wait_pending_step [of pid history n, OF True]
    have "wait_for_result history pid n = Some r" by simp
    then show ?thesis by blast
  qed
qed


lemma wait_first_answer:
  assumes "\<forall>i<k. pending pid (history i)"
  shows "wait_for_result history pid 0 = wait_for_result history pid k"
  using wait_skip_pending [of k pid history 0] assms by simp

text \<open>
  Claim C2, as amended. \<open>wait_for_result\<close> has no timeout of its own. It returns the
  history item of the first poll that is answered with status 200 and a body holding the
  run identifier, whatever number of polls were answered without it before; an exception
  raised by a poll (by the request, or by reading the body) leaves the function; and the
  loop never returns exactly when every poll is answered without the run identifier.
\<close>

theorem wait_for_result_no_timeout:
  "((\<forall>i. pending pid (history i)) \<longleftrightarrow> wait_for_result history pid 0 = None)
   \<and> ((\<forall>i<k. pending pid (history i)) \<and> history k = PollReply 200 (Inr data)
        \<and> map_of data pid = Some item
        \<longrightarrow> wait_for_result history pid 0 = Some (Inr item))
   \<and> ((\<forall>i<k. pending pid (history i))
        \<and> (history k = PollRaises e \<or> history k = PollReply 200 (Inl e))
        \<longrightarrow> wait_for_result history pid 0 = Some (Inl e))"
proof (intro conjI impI iffI)
  assume "\<forall>i. pending pid (history i)"
  then show "wait_for_result history pid 0 = None" by (rule wait_forever)
next
  assume none: "wait_for_result history pid 0 = None"
  show "\<forall>i. pending pid (history i)"
  proof (rule ccontr)
    assume "\<not> (\<forall>i. pending pid (history i))"
    then obtain i where "\<not> pending pid (history i)" by auto
    from wait_returns [of pid history i 0] this none show False by simp
  qed
next
  assume a: "(\<forall>i<k. pending pid (history i)) \<and> history k = PollReply 200 (Inr data)
        \<and> map_of data pid = Some item"
  then have "wait_for_result history pid 0 = wait_for_result history pid k"
    by (intro wait_first_answer) simp
  with a show "wait_for_result history pid 0 = Some (Inr item)"
    by (simp add: wait_found)
next
  assume a: "(\<forall>i<k. pending pid (history i))
        \<and> (history k = PollRaises e \<or> history k = PollReply 200 (Inl e))"
  then have "wait_for_result history pid 0 = wait_for_result history pid k"
    by (intro wait_first_answer) simp
  with a show "wait_for_result history pid 0 = Some (Inl e)"
    by (auto simp: wait_raises wait_bad_body)
qed

text \<open>
  At an engine that holds the run at its third answer, and at one that never holds it.
\<close>

theorem wait_for_result_no_timeout_witness:
  "pending (py ''run-1'') (ready_on_third 0)
   \<and> pending (py ''run-1'') (ready_on_third 1)
   \<and> ready_on_third 2 = PollReply 200 (Inr [(py ''run-1'', sample_item)])
   \<and> wait_for_result ready_on_third (py ''run-1'') 0 = Some (Inr sample_item)
   \<and> (\<forall>i. pending (py ''run-1'') (never_ready i))
   \<and> wait_for_result never_ready (py ''run-1'') 0 = None"
proof -
  have p: "\<forall>i<2. pending (py ''run-1'') (ready_on_third i)"
    by (simp add: pending_def ready_on_third_def)
  have r: "ready_on_third 2 = PollReply 200 (Inr [(py ''run-1'', sample_item)])"
    by (simp add: ready_on_third_def)
  have m: "map_of [(py ''run-1'', sample_item)] (py ''run-1'') = Some sample_item"
    by simp
  have n: "\<forall>i. pending (py ''run-1'') (never_ready i)"
    by (simp add: pending_def never_ready_def)
  from wait_for_result_no_timeout
         [of "py ''run-1''" ready_on_third 2 "[(py ''run-1'', sample_item)]" sample_item] p r m
  have 1: "wait_for_result ready_on_third (py ''run-1'') 0 = Some (Inr sample_item)"
    by blast
  from wait_for_result_no_timeout [of "py ''run-1''" never_ready] n
  have 2: "wait_for_result never_ready (py ''run-1'') 0 = None"
    by blast
  have p0: "pending (py ''run-1'') (ready_on_third 0)"
    and p1: "pending (py ''run-1'') (ready_on_third 1)"
    by (simp_all add: pending_def ready_on_third_def)
  from p0 p1 r 1 n 2 show ?thesis by blast
qed

text \<open>
  Claim C2 as stated fails: the run identifier never appears in the history, and
  \<open>wait_for_result\<close> neither returns nor raises.
\<close>

theorem wait_for_result_never_returns:
  "wait_for_result never_ready (py ''run-1'') 0 = None"
  by (rule wait_forever) (simp add: pending_def never_ready_def)

section \<open>The classifier\<close>

lemma fallback_rule_range: "fallback_rule ul p = NEW \<or> fallback_rule ul p = EDIT"
  by (simp add: fallback_rule_def scan_keywords_iff)

lemma parse_mode_range:
  "parse_mode env text = Inr (Some m) \<Longrightarrow> m = NEW \<or> m = EDIT"
  by (auto simp: parse_mode_def Let_def
           split: json.splits option.splits if_splits)

lemma classify_mode_range:
  assumes "classify_mode env p = (Inr m, posts)"
  shows "m = NEW \<or> m = EDIT"
proof (cases "p = [] \<or> py_strip p = []")
  case True
  with assms show ?thesis by (simp add: classify_mode_def)
next
  case False
  show ?thesis
  proof (cases "call_ollama env p")
    case (Inl e)
    with False assms have "m = fallback_rule (unicode_lower env) p"
      by (simp add: classify_mode_def)
    then show ?thesis using fallback_rule_range by simp
  next
    case (Inr tx)
    show ?thesis
    proof (cases "parse_mode env tx")
      case (Inl e)
      with False Inr assms have "m = fallback_rule (unicode_lower env) p"
        by (simp add: classify_mode_def split: if_splits)
      then show ?thesis using fallback_rule_range by simp
    next
      case r: (Inr res)
      show ?thesis
      proof (cases res)
        case None
        with False Inr r assms have "m = fallback_rule (unicode_lower env) p"
          by (simp add: classify_mode_def)
        then show ?thesis using fallback_rule_range by simp
      next
        case (Some mv)
        with False Inr r assms have "m = mv" by (simp add: classify_mode_def)
        with r Some show ?thesis using parse_mode_range by simp
      qed
    qed
  qed
qed

lemma classify_mode_blank:
  "py_strip p = [] \<Longrightarrow> classify_mode env p = (Inr NEW, [])"
  by (simp add: classify_mode_def)

lemma classify_mode_raises_iff:
  "(\<exists>e posts. classify_mode env p = (Inl e, posts)) \<longleftrightarrow>
     (py_strip p \<noteq> [] \<and>
      (\<exists>text e. call_ollama env p = Inr text \<and> parse_mode env text = Inl e \<and> \<not> sliceable text))"
  by (auto simp: classify_mode_def py_strip_def split: sum.splits option.splits)

text \<open>
  Claim C7 asks that \<open>classify_mode\<close> never raises and always returns NEW or EDIT. The
  code breaks it at one place: when the field \<open>response\<close> of the reply is a number, a
  boolean or an object, \<open>re.search\<close> raises inside the second \<open>try\<close>, and the handler
  raises again while it formats \<open>text[:200]\<close> for its log line. Here the reply is
  \<open>{"response": 5}\<close> with status 200 and the prompt is "a cat".
\<close>

theorem classify_mode_raises:
  "classify_mode numeric_reply (py ''a cat'')
     = (Inl (TypeError ([39] @ py ''int'' @ [39] @ py '' object is not subscriptable'')),
        [py ''a cat''])"
  by (simp add: classify_mode_def call_ollama_def response_text_def parse_mode_def
                numeric_reply_def py_strip_def py_isspace_def)

section \<open>Intake\<close>


lemma written_records_append:
  "written_records (xs @ ys) = written_records xs @ written_records ys"
  by (induction xs rule: written_records.induct) simp_all

lemma written_records_posts: "written_records (map OllamaPost posts) = []"
  by (induction posts) simp_all

lemma resolve_mode_explicit:
  "mode req = Some m \<Longrightarrow> resolve_mode env w req = (Inr m, w)"
  by (simp add: resolve_mode_def)

lemma resolve_mode_no_image:
  "mode req = None \<Longrightarrow> falsy (last_image w (user_id req)) \<Longrightarrow>
     resolve_mode env w req = (Inr NEW, w)"
  by (simp add: resolve_mode_def)

lemma resolve_mode_classified:
  "mode req = None \<Longrightarrow> \<not> falsy (last_image w (user_id req)) \<Longrightarrow>
     resolve_mode env w req =
       (fst (classify_mode (classifier env) (prompt req)),
        w\<lparr>trace := trace w @ [ClassifyMode (prompt req)]
               @ map OllamaPost (snd (classify_mode (classifier env) (prompt req)))\<rparr>)"
  by (simp add: resolve_mode_def split: prod.splits)

lemma resolve_mode_frame:
  assumes "resolve_mode env w req = (r, w1)"
  shows "jobs w1 = jobs w \<and> last_image w1 = last_image w \<and> queue w1 = queue w
         \<and> uuids_drawn w1 = uuids_drawn w
         \<and> (\<exists>evs. trace w1 = trace w @ evs \<and> written_records evs = [])"
proof (cases "mode req")
  case (Some m)
  with assms have "w1 = w" by (simp add: resolve_mode_explicit)
  then show ?thesis by simp
next
  case None
  show ?thesis
  proof (cases "falsy (last_image w (user_id req))")
    case True
    with None assms have "w1 = w" by (simp add: resolve_mode_no_image)
    then show ?thesis by simp
  next
    case False
    with None assms show ?thesis
      by (auto simp: resolve_mode_classified written_records_posts)
  qed
qed

lemma resolve_mode_range:
  assumes "resolve_mode env w req = (Inr m, w1)"
    and "mode req = None \<or> mode req = Some NEW \<or> mode req = Some EDIT"
  shows "m = NEW \<or> m = EDIT"
proof (cases "mode req")
  case (Some m')
  with assms show ?thesis by (auto simp: resolve_mode_explicit)
next
  case None
  show ?thesis
  proof (cases "falsy (last_image w (user_id req))")
    case True
    with None assms show ?thesis by (simp add: resolve_mode_no_image)
  next
    case False
    with None assms
    have "fst (classify_mode (classifier env) (prompt req)) = Inr m"
      by (simp add: resolve_mode_classified)
    then have "classify_mode (classifier env) (prompt req)
                 = (Inr m, snd (classify_mode (classifier env) (prompt req)))"
      by (metis prod.collapse)
    then show ?thesis by (rule classify_mode_range)
  qed
qed

lemma generate_blank_prompt:
  "py_strip (prompt req) = [] \<Longrightarrow>
     generate env w req = (Inl (HTTPException 400 empty_prompt_detail), w)"
  by (simp add: generate_def)

lemma generate_accepted:
  assumes "py_strip (prompt req) \<noteq> []" and "resolve_mode env w req = (Inr m, w1)"
  shows "generate env w req =
           (Inr \<lparr>job_id = gen_job_id env (uuids_drawn w), resp_status = Waiting\<rparr>,
            lpush (JsonObject (job_data_of (gen_job_id env (uuids_drawn w)) req m))
              (set_job (gen_job_id env (uuids_drawn w)) waiting_record
                 (w1\<lparr>uuids_drawn := Suc (uuids_drawn w)\<rparr>)))"
  using assms resolve_mode_frame [OF assms(2)]
  by (simp add: generate_def Let_def)

lemma generate_refused:
  assumes "py_strip (prompt req) \<noteq> []" and "resolve_mode env w req = (Inl e, w1)"
  shows "generate env w req = (Inl (Unhandled e), w1)"
  using assms by (simp add: generate_def)



lemma strip_cat: "py_strip (py ''a cat'') = py ''a cat''"
  by (simp add: py_strip_def py_isspace_def)


text \<open>
  Claim C6 asks that a blank prompt is refused with status 400 and no effect (lemma
  \<open>generate_blank_prompt\<close>) and that every other request is answered with a job identifier
  and the status \<open>waiting\<close>. The second half fails where \<open>classify_mode\<close> raises: the
  exception leaves \<open>generate\<close>, and no job is created. Here the user has a last image, the
  request names no mode, and the classifier endpoint replies \<open>{"response": 5}\<close>.
\<close>

theorem generate_unhandled_classifier_error:
  "generate intake_numeric world_with_image request_cat =
     (Inl (Unhandled (TypeError ([39] @ py ''int'' @ [39] @ py '' object is not subscriptable''))),
      world_with_image\<lparr>trace := [ClassifyMode (py ''a cat''), OllamaPost (py ''a cat'')]\<rparr>)"
proof -
  have "resolve_mode intake_numeric world_with_image request_cat =
      (Inl (TypeError ([39] @ py ''int'' @ [39] @ py '' object is not subscriptable'')),
       world_with_image\<lparr>trace := [ClassifyMode (py ''a cat''), OllamaPost (py ''a cat'')]\<rparr>)"
    by (simp add: resolve_mode_def request_cat_def intake_numeric_def world_with_image_def
                  falsy_def classify_mode_def call_ollama_def response_text_def parse_mode_def
                  numeric_reply_def py_strip_def py_isspace_def)
  then show ?thesis
    using strip_cat by (intro generate_refused) (simp_all add: request_cat_def)
qed

lemma validate_request_modes:
  "validate_request body = Inr req \<Longrightarrow>
     req = body \<and> (mode req = None \<or> mode req = Some NEW \<or> mode req = Some EDIT)"
  by (auto simp: validate_request_def split: option.splits if_splits)

lemma validate_request_rejects:
  "mode body = Some m \<Longrightarrow> m \<noteq> NEW \<Longrightarrow> m \<noteq> EDIT \<Longrightarrow>
     \<exists>d. validate_request body = Inl (HTTPException 422 d)"
  by (simp add: validate_request_def)

lemma generate_queue:
  assumes "generate env w req = (res, w')"
    and "mode req = None \<or> mode req = Some NEW \<or> mode req = Some EDIT"
  shows "queue w' = queue w
         \<or> (\<exists>jid m. (m = NEW \<or> m = EDIT)
               \<and> queue w' = JsonObject (job_data_of jid req m) # queue w)"
proof (cases "py_strip (prompt req) = []")
  case True
  with assms(1) show ?thesis by (simp add: generate_blank_prompt)
next
  case False
  obtain r w1 where r: "resolve_mode env w req = (r, w1)" by (cases "resolve_mode env w req")
  show ?thesis
  proof (cases r)
    case (Inl e)
    with False r assms(1) have "w' = w1" by (simp add: generate_refused)
    with resolve_mode_frame [OF r] show ?thesis by simp
  next
    case (Inr m)
    with r resolve_mode_range assms(2) have m: "m = NEW \<or> m = EDIT" by blast
    from Inr r generate_accepted [OF False, of env w m w1] assms(1) resolve_mode_frame [OF r]
    have "queue w' = JsonObject (job_data_of (gen_job_id env (uuids_drawn w)) req m) # queue w"
      by (auto simp: lpush_def set_job_def)
    with m show ?thesis by blast
  qed
qed

text \<open>
  Claim C10. Every entry that the endpoint puts on the queue has the mode NEW or EDIT: the
  validation of the request refuses any other mode the caller supplies, before
  \<open>generate\<close> runs and with no effect, and the fallback rule and the classifier return
  nothing but NEW and EDIT. So the test \<open>mode == "NEW"\<close> of the worker, whose other branch
  is the edit path, meets no third value on such an entry.
\<close>

theorem queued_mode_is_NEW_or_EDIT:
  assumes "post_generate env w body = (res, w')"
  shows "(queue w' = queue w
          \<or> (\<exists>jid m. (m = NEW \<or> m = EDIT)
                \<and> queue w' = JsonObject (job_data_of jid body m) # queue w
                \<and> map_of (job_data_of jid body m) (py ''mode'') = Some m))
       \<and> (\<forall>m. mode body = Some m \<and> m \<noteq> NEW \<and> m \<noteq> EDIT \<longrightarrow>
               w' = w \<and> (\<exists>d. res = Inl (HTTPException 422 d)))
       \<and> (\<forall>ul p. fallback_rule ul p = NEW \<or> fallback_rule ul p = EDIT)
       \<and> (\<forall>cenv p m posts. classify_mode cenv p = (Inr m, posts) \<longrightarrow> m = NEW \<or> m = EDIT)"
proof -
  have a: "queue w' = queue w
          \<or> (\<exists>jid m. (m = NEW \<or> m = EDIT)
                \<and> queue w' = JsonObject (job_data_of jid body m) # queue w
                \<and> map_of (job_data_of jid body m) (py ''mode'') = Some m)"
  proof (cases "validate_request body")
    case (Inl e)
    with assms show ?thesis by (simp add: post_generate_def)
  next
    case (Inr req)
    from validate_request_modes [OF Inr]
    have req: "req = body" and ok: "mode body = None \<or> mode body = Some NEW \<or> mode body = Some EDIT"
      by auto
    from assms Inr req have "generate env w body = (res, w')" by (simp add: post_generate_def)
    from generate_queue [OF this ok] show ?thesis by (auto simp: job_data_of_def)
  qed
  have b: "w' = w \<and> (\<exists>d. res = Inl (HTTPException 422 d))"
    if bad: "mode body = Some m \<and> m \<noteq> NEW \<and> m \<noteq> EDIT" for m
  proof -
    from bad obtain d where "validate_request body = Inl (HTTPException 422 d)"
      using validate_request_rejects by blast
    with assms show ?thesis by (auto simp: post_generate_def)
  qed
  have c: "fallback_rule ul p = NEW \<or> fallback_rule ul p = EDIT" for ul p
    by (rule fallback_rule_range)
  have d: "m = NEW \<or> m = EDIT" if "classify_mode cenv p = (Inr m, posts)" for cenv p m posts
    using that by (rule classify_mode_range)
  from a b c d show ?thesis by blast
qed

lemma classify_mode_edit_reply:
  "classify_mode edit_reply (py ''a cat'') = (Inr EDIT, [py ''a cat''])"
  using strip_cat
  by (simp add: classify_mode_def call_ollama_def response_text_def parse_mode_def
                search_braces_def edit_reply_def py_strip_def py_isspace_def py_upper_def
                is_ascii_def ascii_upper_def Let_def)

lemma post_generate_cat:
  "post_generate intake_edit world_with_image request_cat =
     (Inr \<lparr>job_id = py ''job-0'', resp_status = Waiting\<rparr>,
      lpush (JsonObject (job_data_of (py ''job-0'') request_cat EDIT))
        (set_job (py ''job-0'') waiting_record
           (world_with_image
              \<lparr>trace := [ClassifyMode (py ''a cat''), OllamaPost (py ''a cat'')],
               uuids_drawn := 1\<rparr>)))"
proof -
  have r: "resolve_mode intake_edit world_with_image request_cat =
      (Inr EDIT,
       world_with_image\<lparr>trace := [ClassifyMode (py ''a cat''), OllamaPost (py ''a cat'')]\<rparr>)"
    using classify_mode_edit_reply
    by (simp add: resolve_mode_def request_cat_def intake_edit_def world_with_image_def falsy_def)
  have s: "py_strip (prompt request_cat) \<noteq> []" using strip_cat by (simp add: request_cat_def)
  have v: "validate_request request_cat = Inr request_cat"
    by (simp add: validate_request_def request_cat_def)
  from generate_accepted [OF s r] v show ?thesis
    by (simp add: post_generate_def intake_edit_def world_with_image_def job_ids_def)
qed

text \<open>A request with no mode from a user with a last image, classified as an edit.\<close>

theorem queued_mode_is_NEW_or_EDIT_witness:
  "queue (snd (post_generate intake_edit world_with_image request_cat))
     = [JsonObject (job_data_of (py ''job-0'') request_cat EDIT)]
   \<and> queue (snd (post_generate intake_edit world_with_image request_cat))
       \<noteq> queue world_with_image
   \<and> (\<exists>jid m. (m = NEW \<or> m = EDIT)
         \<and> queue (snd (post_generate intake_edit world_with_image request_cat))
             = JsonObject (job_data_of jid request_cat m) # queue world_with_image
         \<and> map_of (job_data_of jid request_cat m) (py ''mode'') = Some m)"
proof -
  have q: "queue (snd (post_generate intake_edit world_with_image request_cat))
     = [JsonObject (job_data_of (py ''job-0'') request_cat EDIT)]"
    unfolding post_generate_cat by (simp add: lpush_def set_job_def world_with_image_def)
  then have n: "queue (snd (post_generate intake_edit world_with_image request_cat))
       \<noteq> queue world_with_image"
    by (simp add: world_with_image_def)
  have g: "post_generate intake_edit world_with_image request_cat
             = (fst (post_generate intake_edit world_with_image request_cat),
                snd (post_generate intake_edit world_with_image request_cat))"
    by simp
  from queued_mode_is_NEW_or_EDIT [OF g] n
  have "\<exists>jid m. (m = NEW \<or> m = EDIT)
         \<and> queue (snd (post_generate intake_edit world_with_image request_cat))
             = JsonObject (job_data_of jid request_cat m) # queue world_with_image
         \<and> map_of (job_data_of jid request_cat m) (py ''mode'') = Some m"
    by blast
  with q n show ?thesis by blast
qed

section \<open>The worker\<close>

lemma record_ok_written:
  "record_ok waiting_record" "record_ok processing_record"
  "record_ok (done_record url)" "record_ok (error_record e)"
  by (simp_all add: record_ok_def waiting_record_def processing_record_def done_record_def
                    error_record_def)

lemma py_slice_sliceable: "sliceable v \<Longrightarrow> \<exists>shown. py_slice n v = Inr shown"
  by (cases v) simp_all

lemma py_slice_not_sliceable: "\<not> sliceable v \<Longrightarrow> py_slice n v = Inl (slice_error v)"
  by (cases v) simp_all


lemma outside_try_okD:
  assumes "outside_try_ok env"
  shows "redis_raises env tr OpBRPop = None"
    and "redis_raises env tr (OpSetJob key processing_record) = None"
    and "redis_raises env tr (OpSetJob key (error_record e)) = None"
    and "print_raises env LogStarted = None"
    and "print_raises env (LogInvalidJson s) = None"
    and "print_raises env (LogDequeued v) = None"
    and "print_raises env (LogProcessing jid m shown) = None"
    and "print_raises env (LogError jid e) = None"
    and "print_raises env (LogTraceback e) = None"
  using assms by (simp_all add: outside_try_ok_def)

lemma quiet_outside_try_ok: "quiet env \<Longrightarrow> outside_try_ok env"
  by (simp add: quiet_def outside_try_ok_def)

text \<open>The ways the handler, the last three statements and the whole function end.\<close>

lemma handle_failure_shape:
  assumes "handle_failure env w jid e = (x, w')"
  shows "(x \<noteq> None \<and> w' = w)
       \<or> (x = None \<and> w' = set_job (format_value env jid) (error_record e) w)"
  using assms
  by (auto simp: handle_failure_def redis_set_job_def split: option.splits)

lemma handle_failure_outside_ok:
  assumes "outside_try_ok env"
  shows "handle_failure env w jid e = (None, set_job (format_value env jid) (error_record e) w)"
  using outside_try_okD [OF assms]
  by (simp add: handle_failure_def redis_set_job_def)

lemma record_success_shape:
  assumes "record_success env w jid uid url = (y, w2)"
  shows "(y \<noteq> None \<and> w2 = w)
       \<or> (y \<noteq> None \<and> w2 = set_last_image (format_value env uid) url w)
       \<or> (y = print_raises env (LogCompleted jid)
            \<and> w2 = set_job (format_value env jid) (done_record url)
                     (set_last_image (format_value env uid) url w))"
  using assms
  by (auto simp: record_success_def redis_set_job_def redis_set_last_image_def
           split: option.splits)

lemma record_success_quiet:
  assumes "quiet env"
  shows "record_success env w jid uid url
           = (None, set_job (format_value env jid) (done_record url)
                      (set_last_image (format_value env uid) url w))"
  using assms
  by (simp add: record_success_def redis_set_job_def redis_set_last_image_def quiet_def)

lemma guarded_steps_split:
  assumes "guarded_steps env w jid uid m p = Some (y, w2)"
  shows "(\<exists>e. produce_image env w jid uid m p = Some (Inl e) \<and> y = Some e \<and> w2 = w)
       \<or> (\<exists>url. produce_image env w jid uid m p = Some (Inr url)
              \<and> record_success env w jid uid url = (y, w2))"
  using assms
  by (auto simp: guarded_steps_def split: option.splits sum.splits)

lemma process_job_no_fields:
  "read_fields jd = Inl e \<Longrightarrow> process_job env w jd = Some (Some e, w)"
  by (simp add: process_job_def)

lemma process_job_split:
  assumes "process_job env w jd = Some (x, w')" and "read_fields jd = Inr (jid, uid, m, p)"
  shows "(x \<noteq> None \<and> w' = w)
       \<or> (\<exists>w2. guarded_steps env (set_job (format_value env jid) processing_record w)
                  jid uid m p = Some (None, w2) \<and> x = None \<and> w' = w2)
       \<or> (\<exists>e w2. guarded_steps env (set_job (format_value env jid) processing_record w)
                  jid uid m p = Some (Some e, w2) \<and> handle_failure env w2 jid e = (x, w'))"
  using assms
  by (auto simp: process_job_def redis_set_job_def split: option.splits sum.splits)

lemma process_job_outside_ok:
  assumes "outside_try_ok env" and "read_fields jd = Inr (jid, uid, m, p)" and "sliceable p"
  shows "process_job env w jd =
           (case guarded_steps env (set_job (format_value env jid) processing_record w)
                   jid uid m p of
              None \<Rightarrow> None
            | Some (None, w2) \<Rightarrow> Some (None, w2)
            | Some (Some e, w2) \<Rightarrow>
                Some (None, set_job (format_value env jid) (error_record e) w2))"
proof -
  from py_slice_sliceable [OF assms(3)] obtain shown where "py_slice 50 p = Inr shown" ..
  with assms(2) outside_try_okD [OF assms(1)] show ?thesis
    by (simp add: process_job_def redis_set_job_def handle_failure_outside_ok [OF assms(1)]
             split: option.splits)
qed

text \<open>
  Every world \<open>process_job\<close> can leave behind, from the world \<open>w1\<close> that holds the
  \<open>processing\<close> record.
\<close>

lemma process_job_shapes:
  assumes "process_job env w jd = Some (x, w')" and "read_fields jd = Inr (jid, uid, m, p)"
  shows "w' = w \<and> x \<noteq> None
       \<or> (\<exists>e. produce_image env (set_job (format_value env jid) processing_record w)
                 jid uid m p = Some (Inl e)
            \<and> (w' = set_job (format_value env jid) processing_record w \<and> x \<noteq> None
               \<or> w' = set_job (format_value env jid) (error_record e)
                        (set_job (format_value env jid) processing_record w) \<and> x = None))
       \<or> (\<exists>url. produce_image env (set_job (format_value env jid) processing_record w)
                 jid uid m p = Some (Inr url)
            \<and> (w' = set_job (format_value env jid) processing_record w \<and> x \<noteq> None
               \<or> (\<exists>e. w' = set_job (format_value env jid) (error_record e)
                        (set_job (format_value env jid) processing_record w) \<and> x = None)
               \<or> w' = set_last_image (format_value env uid) url
                        (set_job (format_value env jid) processing_record w) \<and> x \<noteq> None
               \<or> (\<exists>e. redis_raises env
                          (trace (set_last_image (format_value env uid) url
                                    (set_job (format_value env jid) processing_record w)))
                          (OpSetJob (format_value env jid) (done_record url)) = Some e
                     \<and> w' = set_job (format_value env jid) (error_record e)
                        (set_last_image (format_value env uid) url
                           (set_job (format_value env jid) processing_record w)) \<and> x = None)
               \<or> w' = set_job (format_value env jid) (done_record url)
                        (set_last_image (format_value env uid) url
                           (set_job (format_value env jid) processing_record w))
               \<or> (\<exists>e. print_raises env (LogCompleted jid) = Some e
                     \<and> w' = set_job (format_value env jid) (error_record e)
                        (set_job (format_value env jid) (done_record url)
                           (set_last_image (format_value env uid) url
                              (set_job (format_value env jid) processing_record w)))
                     \<and> x = None)))"
proof -
  let ?key = "format_value env jid" and ?ukey = "format_value env uid"
  let ?w1 = "set_job ?key processing_record w"
  from process_job_split [OF assms]
  consider (early) "x \<noteq> None" "w' = w"
    | (clean) w2 where "guarded_steps env ?w1 jid uid m p = Some (None, w2)" "x = None" "w' = w2"
    | (caught) e w2 where "guarded_steps env ?w1 jid uid m p = Some (Some e, w2)"
        "handle_failure env w2 jid e = (x, w')"
    by blast
  then show ?thesis
  proof cases
    case early
    then show ?thesis by simp
  next
    case clean
    from guarded_steps_split [OF clean(1)] obtain url
      where url: "produce_image env ?w1 jid uid m p = Some (Inr url)"
        and rs: "record_success env ?w1 jid uid url = (None, w2)"
      by auto
    from record_success_shape [OF rs]
    have "w2 = set_job ?key (done_record url) (set_last_image ?ukey url ?w1)" by auto
    with url clean show ?thesis by simp
  next
    case caught
    from handle_failure_shape [OF caught(2)]
    have h: "(x \<noteq> None \<and> w' = w2) \<or> (x = None \<and> w' = set_job ?key (error_record e) w2)" .
    from guarded_steps_split [OF caught(1)]
    consider (raised) "produce_image env ?w1 jid uid m p = Some (Inl e)" "w2 = ?w1"
      | (late) url where "produce_image env ?w1 jid uid m p = Some (Inr url)"
          "record_success env ?w1 jid uid url = (Some e, w2)"
      by auto
    then show ?thesis
    proof cases
      case raised
      with h show ?thesis by auto
    next
      case late
      from late(2) have
        "w2 = ?w1
         \<or> (w2 = set_last_image ?ukey url ?w1
              \<and> redis_raises env (trace (set_last_image ?ukey url ?w1))
                   (OpSetJob ?key (done_record url)) = Some e)
         \<or> (w2 = set_job ?key (done_record url) (set_last_image ?ukey url ?w1)
              \<and> print_raises env (LogCompleted jid) = Some e)"
        by (auto simp: record_success_def redis_set_job_def redis_set_last_image_def
                 split: option.splits)
      with h late(1) show ?thesis by auto
    qed
  qed
qed

lemma wait_engine_polls:
  "wait_for_result (engine_polls pid) pid 0 = Some (Inr sample_item)"
proof -
  have "wait_for_result (engine_polls pid) pid 0 = wait_for_result (engine_polls pid) pid 2"
    by (rule wait_first_answer) (simp add: pending_def engine_polls_def)
  also have "\<dots> = Some (Inr sample_item)"
    by (rule wait_found [where data = "[(pid, sample_item)]"]) (simp_all add: engine_polls_def)
  finally show ?thesis .
qed

lemma extract_sample_item:
  "extract_first_image_from_history sample_item = Some (py ''out.png'', [], py ''output'')"
  by (simp add: extract_first_image_from_history_def sample_item_def falsy_def)

lemma build_sample_url:
  "build_image_url (py ''http://127.0.0.1:8188'') (py ''out.png'') [] (py ''output'') = sample_url"
  by (simp add: build_image_url_def rstrip_slash_def sample_url_def)

lemma read_entry_a:
  "read_fields (decoded (JsonObject entry_a))
     = Inr (JStr (py ''job-0''), JStr (py ''u1''), JStr NEW, JStr (py ''a cat''))"
  by (simp add: read_fields_def subscript_def entry_a_def)


lemma submit_sample:
  "submit (sample_worker\<lparr>redis_raises := f\<rparr>) (JStr (py ''job-0'')) (JStr NEW) (JObj [])
     = Inr (py ''run-1'')"
  by (simp add: submit_def after_def sample_worker_def)

lemma produce_sample_a:
  "produce_image (sample_worker\<lparr>redis_raises := f\<rparr>) w (JStr (py ''job-0'')) (JStr (py ''u1''))
     (JStr NEW) (JStr (py ''a cat'')) = Some (Inr sample_url)"
proof -
  let ?env = "sample_worker\<lparr>redis_raises := f\<rparr>"
  have h: "history_polls ?env = engine_polls" and c: "COMFYUI_URL ?env = py ''http://127.0.0.1:8188''"
    and pr: "print_raises ?env = (\<lambda>line. None)"
    by (simp_all add: sample_worker_def)
  have p: "prepare_workflow ?env w (JStr (py ''job-0'')) (JStr (py ''u1'')) (JStr NEW)
             (JStr (py ''a cat'')) = Inr (JObj [])"
    by (simp add: prepare_workflow_def sample_worker_def)
  have s: "submit_and_wait ?env (JStr (py ''job-0'')) (JStr NEW) (JObj []) = Some (Inr sample_item)"
    unfolding submit_and_wait_def submit_sample h
    by (simp add: wait_engine_polls after_def pr)
  have l: "locate_image ?env sample_item = Inr sample_url"
    unfolding locate_image_def extract_sample_item c
    using build_sample_url by (simp add: after_def pr)
  show ?thesis
    using p s l by (simp add: produce_image_def)
qed


lemma process_sample_a:
  "process_job sample_worker w (decoded (JsonObject entry_a))
     = Some (None, set_job (py ''job-0'') (done_record sample_url)
                     (set_last_image (py ''u1'') sample_url
                        (set_job (py ''job-0'') processing_record w)))"
proof -
  have q: "quiet sample_worker" by (simp add: quiet_def sample_worker_def)
  have s: "sample_worker\<lparr>redis_raises := \<lambda>tr op. None\<rparr> = sample_worker"
    by (simp add: sample_worker_def)
  from produce_sample_a [of "\<lambda>tr op. None"] s
  have p: "produce_image sample_worker w1 (JStr (py ''job-0'')) (JStr (py ''u1''))
     (JStr NEW) (JStr (py ''a cat'')) = Some (Inr sample_url)" for w1
    by simp
  show ?thesis
    using process_job_outside_ok [OF quiet_outside_try_ok [OF q] read_entry_a, of w]
          p [of "set_job (py ''job-0'') processing_record w"]
          record_success_quiet [OF q, of "set_job (py ''job-0'') processing_record w"
             "JStr (py ''job-0'')" "JStr (py ''u1'')" sample_url]
    by (simp add: guarded_steps_def format_value_def)
qed

lemma process_rejected_a:
  "process_job rejecting_worker w (decoded (JsonObject entry_a))
     = Some (None, set_job (py ''job-0'') (error_record (LibraryError (py ''400 Bad Request'')))
                     (set_job (py ''job-0'') processing_record w))"
proof -
  have q: "quiet rejecting_worker" by (simp add: quiet_def rejecting_worker_def sample_worker_def)
  have p: "produce_image rejecting_worker w1 (JStr (py ''job-0'')) (JStr (py ''u1''))
     (JStr NEW) (JStr (py ''a cat'')) = Some (Inl (LibraryError (py ''400 Bad Request'')))" for w1
    by (simp add: produce_image_def prepare_workflow_def submit_and_wait_def submit_def
                  after_def rejecting_worker_def sample_worker_def)
  show ?thesis
    using process_job_outside_ok [OF quiet_outside_try_ok [OF q] read_entry_a, of w]
          p [of "set_job (py ''job-0'') processing_record w"]
    by (simp add: guarded_steps_def format_value_def)
qed

lemma process_done_refused_a:
  "process_job done_refused_worker w (decoded (JsonObject entry_a))
     = Some (None, set_job (py ''job-0'') (error_record (LibraryError (py ''Connection reset'')))
                     (set_last_image (py ''u1'') sample_url
                        (set_job (py ''job-0'') processing_record w)))"
proof -
  have o: "outside_try_ok done_refused_worker"
    by (simp add: outside_try_ok_def done_refused_worker_def sample_worker_def refuses_done_def
                  processing_record_def error_record_def)
  have p: "produce_image done_refused_worker w1 (JStr (py ''job-0'')) (JStr (py ''u1''))
     (JStr NEW) (JStr (py ''a cat'')) = Some (Inr sample_url)" for w1
    unfolding done_refused_worker_def by (rule produce_sample_a)
  have r: "record_success done_refused_worker w1 (JStr (py ''job-0'')) (JStr (py ''u1'')) sample_url
             = (Some (LibraryError (py ''Connection reset'')),
                set_last_image (py ''u1'') sample_url w1)" for w1
    by (simp add: record_success_def redis_set_last_image_def redis_set_job_def
                  done_refused_worker_def sample_worker_def refuses_done_def done_record_def
                  format_value_def)
  show ?thesis
    using process_job_outside_ok [OF o read_entry_a, of w]
          p [of "set_job (py ''job-0'') processing_record w"]
          r [of "set_job (py ''job-0'') processing_record w"]
    by (simp add: guarded_steps_def format_value_def)
qed

lemma produce_image_built:
  assumes "produce_image env w jid uid m p = Some (Inr url)"
  shows "\<exists>workflow item fname subf ty.
           prepare_workflow env w jid uid m p = Inr workflow
           \<and> submit_and_wait env jid m workflow = Some (Inr item)
           \<and> extract_first_image_from_history item = Some (fname, subf, ty)
           \<and> url = build_image_url (COMFYUI_URL env) fname subf ty"
  using assms
  by (auto simp: produce_image_def locate_image_def after_def
           split: sum.splits option.splits)

text \<open>
  Claim C4, as amended. Whatever way \<open>process_job\<close> ends for the job \<open>jid\<close> of the user
  \<open>uid\<close>: if any last-image pointer changed, then the steps up to the image URL all
  succeeded, only the pointer of \<open>uid\<close> changed, to the URL built from the extracted
  image, and a job record with the status \<open>done\<close> is the \<open>done\<close> record of that URL; a
  job one of whose steps up to the image URL raises leaves the pointers as they were; so
  does every job that ends with the status \<open>error\<close>, provided the store accepts the \<open>done\<close>
  record and the last log line can be printed; and every write of the call goes to the
  key of the job \<open>jid\<close> or to the pointer of \<open>uid\<close>.
\<close>

theorem last_image_written_after_image_url:
  assumes "process_job env w jd = Some (x, w')"
    and "read_fields jd = Inr (jid, uid, m, p)"
  shows "(last_image w' \<noteq> last_image w \<longrightarrow>
            (\<exists>fname subf ty.
                produce_image env (set_job (format_value env jid) processing_record w)
                    jid uid m p
                  = Some (Inr (build_image_url (COMFYUI_URL env) fname subf ty))
                \<and> last_image w'
                    = (last_image w)(format_value env uid
                         \<mapsto> build_image_url (COMFYUI_URL env) fname subf ty)
                \<and> (\<forall>r. jobs w' (format_value env jid) = Some r \<and> status r = Done \<longrightarrow>
                       r = done_record (build_image_url (COMFYUI_URL env) fname subf ty))))
       \<and> (produce_image env (set_job (format_value env jid) processing_record w) jid uid m p
            = Some (Inl e) \<longrightarrow> last_image w' = last_image w)
       \<and> ((\<forall>tr url. redis_raises env tr (OpSetJob (format_value env jid) (done_record url))
                       = None)
           \<and> print_raises env (LogCompleted jid) = None
           \<and> (\<exists>r. jobs w' (format_value env jid) = Some r \<and> status r = Error)
          \<longrightarrow> last_image w' = last_image w)
       \<and> (\<exists>evs. trace w' = trace w @ evs
              \<and> list_all (writes_only (format_value env jid) (format_value env uid)) evs)"
proof -
  let ?key = "format_value env jid" and ?ukey = "format_value env uid"
  let ?w1 = "set_job ?key processing_record w"
  note shapes = process_job_shapes [OF assms]
  have a: "\<exists>fname subf ty.
                produce_image env ?w1 jid uid m p
                  = Some (Inr (build_image_url (COMFYUI_URL env) fname subf ty))
                \<and> last_image w'
                    = (last_image w)(?ukey \<mapsto> build_image_url (COMFYUI_URL env) fname subf ty)
                \<and> (\<forall>r. jobs w' ?key = Some r \<and> status r = Done \<longrightarrow>
                       r = done_record (build_image_url (COMFYUI_URL env) fname subf ty))"
    if changed: "last_image w' \<noteq> last_image w"
  proof -
    from shapes changed obtain url
      where url: "produce_image env ?w1 jid uid m p = Some (Inr url)"
        and w': "w' = set_last_image ?ukey url ?w1
               \<or> (\<exists>e. w' = set_job ?key (error_record e) (set_last_image ?ukey url ?w1))
               \<or> w' = set_job ?key (done_record url) (set_last_image ?ukey url ?w1)
               \<or> (\<exists>e. w' = set_job ?key (error_record e)
                        (set_job ?key (done_record url) (set_last_image ?ukey url ?w1)))"
      by (auto simp: set_job_def set_last_image_def)
    from produce_image_built [OF url] obtain fname subf ty
      where b: "url = build_image_url (COMFYUI_URL env) fname subf ty" by blast
    from w' have "last_image w' = (last_image w)(?ukey \<mapsto> url)"
      by (auto simp: set_job_def set_last_image_def)
    moreover from w' have "\<forall>r. jobs w' ?key = Some r \<and> status r = Done \<longrightarrow> r = done_record url"
      by (auto simp: set_job_def set_last_image_def error_record_def processing_record_def)
    ultimately show ?thesis using url b by blast
  qed
  have b: "last_image w' = last_image w"
    if "produce_image env ?w1 jid uid m p = Some (Inl e)"
    using shapes that by (auto simp: set_job_def)
  have c: "last_image w' = last_image w"
    if h: "(\<forall>tr url. redis_raises env tr (OpSetJob ?key (done_record url)) = None)
           \<and> print_raises env (LogCompleted jid) = None
           \<and> (\<exists>r. jobs w' ?key = Some r \<and> status r = Error)"
  proof -
    from h obtain r where r: "jobs w' ?key = Some r" "status r = Error" by blast
    from h have ok: "\<And>tr url. redis_raises env tr (OpSetJob ?key (done_record url)) = None"
      "print_raises env (LogCompleted jid) = None" by simp_all
    from shapes ok
    consider "w' = w" | "w' = ?w1" | e where "w' = set_job ?key (error_record e) ?w1"
      | url where "w' = set_last_image ?ukey url ?w1"
      | url where "w' = set_job ?key (done_record url) (set_last_image ?ukey url ?w1)"
      by auto
    then show ?thesis
    proof cases
      case 4
      with r show ?thesis by (auto simp: set_job_def set_last_image_def processing_record_def)
    next
      case 5
      with r show ?thesis by (auto simp: set_job_def set_last_image_def done_record_def)
    qed (simp_all add: set_job_def)
  qed
  have d: "\<exists>evs. trace w' = trace w @ evs \<and> list_all (writes_only ?key ?ukey) evs"
    using shapes by (auto simp: set_job_def set_last_image_def)
  from a b c d show ?thesis by blast
qed


text \<open>A job that the engine rejects, for a user who has a last image.\<close>

theorem last_image_written_after_image_url_witness:
  "process_job rejecting_worker world_with_image (decoded (JsonObject entry_a))
     = Some (None, set_job (py ''job-0'') (error_record (LibraryError (py ''400 Bad Request'')))
                     (set_job (py ''job-0'') processing_record world_with_image))
   \<and> read_fields (decoded (JsonObject entry_a))
       = Inr (JStr (py ''job-0''), JStr (py ''u1''), JStr NEW, JStr (py ''a cat''))
   \<and> status (the (jobs (set_job (py ''job-0'') (error_record (LibraryError (py ''400 Bad Request'')))
                     (set_job (py ''job-0'') processing_record world_with_image)) (py ''job-0'')))
       = Error
   \<and> last_image (set_job (py ''job-0'') (error_record (LibraryError (py ''400 Bad Request'')))
                     (set_job (py ''job-0'') processing_record world_with_image))
       = last_image world_with_image"
proof -
  let ?w' = "set_job (py ''job-0'') (error_record (LibraryError (py ''400 Bad Request'')))
                     (set_job (py ''job-0'') processing_record world_with_image)"
  have k: "format_value rejecting_worker (JStr (py ''job-0'')) = py ''job-0''"
    by (simp add: format_value_def)
  have st: "status (the (jobs ?w' (py ''job-0''))) = Error"
    by (simp add: set_job_def error_record_def)
  have prem: "(\<forall>tr url. redis_raises rejecting_worker tr
                   (OpSetJob (format_value rejecting_worker (JStr (py ''job-0''))) (done_record url))
                 = None)
           \<and> print_raises rejecting_worker (LogCompleted (JStr (py ''job-0''))) = None
           \<and> (\<exists>r. jobs ?w' (format_value rejecting_worker (JStr (py ''job-0''))) = Some r
                  \<and> status r = Error)"
    unfolding k by (simp add: rejecting_worker_def sample_worker_def set_job_def error_record_def)
  note kept = last_image_written_after_image_url
         [OF process_rejected_a [of world_with_image] read_entry_a,
          THEN conjunct2, THEN conjunct2, THEN conjunct1, THEN mp, OF prem]
  from process_rejected_a [of world_with_image] read_entry_a st kept show ?thesis
    by (intro conjI)
qed

text \<open>
  Claim C4 as stated fails: the pointer is written before the \<open>done\<close> record, inside the
  \<open>try\<close> statement. When the store refuses the \<open>done\<close> record, the handler writes the
  \<open>error\<close> record: the job ends with the status \<open>error\<close> and the pointer of the user,
  absent before, holds the new URL.
\<close>

theorem failed_job_overwrites_last_image:
  "process_job done_refused_worker queued_world (decoded (JsonObject entry_a))
     = Some (None, set_job (py ''job-0'') (error_record (LibraryError (py ''Connection reset'')))
                     (set_last_image (py ''u1'') sample_url
                        (set_job (py ''job-0'') processing_record queued_world)))
   \<and> jobs (set_job (py ''job-0'') (error_record (LibraryError (py ''Connection reset'')))
                     (set_last_image (py ''u1'') sample_url
                        (set_job (py ''job-0'') processing_record queued_world))) (py ''job-0'')
       = Some \<lparr>status = Error, image_url = None,
                error_message = Some (py ''Connection reset'')\<rparr>
   \<and> last_image queued_world (py ''u1'') = None
   \<and> last_image (set_job (py ''job-0'') (error_record (LibraryError (py ''Connection reset'')))
                     (set_last_image (py ''u1'') sample_url
                        (set_job (py ''job-0'') processing_record queued_world))) (py ''u1'')
       = Some sample_url"
proof -
  have "last_image queued_world (py ''u1'') = None" by (simp add: queued_world_def)
  with process_done_refused_a [of queued_world] show ?thesis
    by (simp add: set_job_def set_last_image_def error_record_def)
qed
section \<open>The worker loop\<close>

lemma process_job_queue:
  assumes "process_job env w jd = Some (x, w')"
  shows "queue w' = queue w"
proof (cases "read_fields jd")
  case (Inl e)
  with assms show ?thesis by (simp add: process_job_no_fields)
next
  case (Inr fs)
  obtain jid uid m p where "fs = (jid, uid, m, p)" by (cases fs) auto
  with Inr process_job_shapes [OF assms, of jid uid m p] show ?thesis
    by (auto simp: set_job_def set_last_image_def)
qed






lemma serve_empty: "queue w = [] \<Longrightarrow> serve env w = Some (Blocked w)"
  by (subst serve.simps) simp

lemma serve_pop_raises:
  "queue w \<noteq> [] \<Longrightarrow> redis_raises env (trace w) OpBRPop = Some e
     \<Longrightarrow> serve env w = Some (Crashed e w)"
  by (subst serve.simps) simp

lemma serve_not_json:
  assumes "queue w \<noteq> []" and "redis_raises env (trace w) OpBRPop = None"
    and "last (queue w) = NotJson s"
  shows "serve env w =
           (case print_raises env (LogInvalidJson s) of
              Some e \<Rightarrow> Some (Crashed e (snd (brpop w)))
            | None \<Rightarrow> serve env (snd (brpop w)))"
  using assms by (subst serve.simps) (simp add: brpop_def split: option.splits)

lemma serve_json:
  assumes "queue w \<noteq> []" and "redis_raises env (trace w) OpBRPop = None"
    and "\<forall>s. last (queue w) \<noteq> NotJson s"
  shows "serve env w =
           (case dispatch env (snd (brpop w)) (decoded (last (queue w))) of
              None \<Rightarrow> None
            | Some (Some e, w2) \<Rightarrow> Some (Crashed e w2)
            | Some (None, w2) \<Rightarrow> serve env w2)"
  using assms
  by (subst serve.simps) (cases "last (queue w)"; simp add: brpop_def)

lemma brpop_queue: "queue w \<noteq> [] \<Longrightarrow> queue (snd (brpop w)) = butlast (queue w)"
  by (simp add: brpop_def)





lemma served_mono:
  assumes "\<forall>k. terminal w k \<longrightarrow> terminal w' k" and "served env w entry"
  shows "served env w' entry"
  using assms by (cases entry) simp_all











text \<open>
  So does an entry with the four fields whose prompt is a number: \<open>prompt[:50]\<close> in the
  first log line of \<open>process_job\<close> raises \<open>TypeError\<close>, before the \<open>try\<close> statement.
\<close>

lemma worker_loop_crashes_on_numeric_prompt:
  "worker_loop sample_worker numeric_queue_world
     = Some (Crashed (slice_error (JNum 5))
               (numeric_queue_world\<lparr>queue := [JsonObject entry_b],
                                     trace := [BRPop (JsonValue entry_numeric_prompt)]\<rparr>))"
proof -
  have ne: "queue numeric_queue_world \<noteq> []" by (simp add: numeric_queue_world_def)
  have l: "last (queue numeric_queue_world) = JsonValue entry_numeric_prompt"
    by (simp add: numeric_queue_world_def)
  then have nj: "\<forall>s. last (queue numeric_queue_world) \<noteq> NotJson s" by simp
  have pop: "redis_raises sample_worker (trace numeric_queue_world) OpBRPop = None"
    by (simp add: sample_worker_def)
  have b: "snd (brpop numeric_queue_world)
             = numeric_queue_world\<lparr>queue := [JsonObject entry_b],
                                     trace := [BRPop (JsonValue entry_numeric_prompt)]\<rparr>"
    by (simp add: brpop_def numeric_queue_world_def)
  have p: "dispatch sample_worker w0 (decoded (JsonValue entry_numeric_prompt))
             = Some (Some (slice_error (JNum 5)), w0)" for w0
    by (simp add: dispatch_def py_get_def process_job_def read_fields_def subscript_def
                  entry_numeric_prompt_def sample_worker_def)
  have "serve sample_worker numeric_queue_world
     = Some (Crashed (slice_error (JNum 5))
               (numeric_queue_world\<lparr>queue := [JsonObject entry_b],
                                     trace := [BRPop (JsonValue entry_numeric_prompt)]\<rparr>))"
    unfolding serve_json [OF ne pop nj] l b p by simp
  then show ?thesis by (simp add: worker_loop_def sample_worker_def)
qed
section \<open>Job records\<close>

lemma wrote_nothing: "jobs w' = jobs w \<Longrightarrow> written_records (trace w') = written_records (trace w)
    \<Longrightarrow> wrote w w' []"
  by (simp add: wrote_def)

lemma wrote_trans:
  assumes "wrote w w1 rs" and "wrote w1 w2 rs'"
  shows "wrote w w2 (rs @ rs')"
  unfolding wrote_def
proof (intro conjI allI)
  from assms show "written_records (trace w2) = written_records (trace w) @ rs @ rs'"
    by (simp add: wrote_def)
next
  fix j
  from assms(2) have "jobs w2 j = jobs w1 j \<or> (\<exists>r \<in> set rs'. jobs w2 j = Some r)"
    by (simp add: wrote_def)
  moreover from assms(1) have "jobs w1 j = jobs w j \<or> (\<exists>r \<in> set rs. jobs w1 j = Some r)"
    by (simp add: wrote_def)
  ultimately show "jobs w2 j = jobs w j \<or> (\<exists>r \<in> set (rs @ rs'). jobs w2 j = Some r)"
    by auto
qed

lemma wrote_set_job: "wrote w (set_job jid r w) [r]"
  by (simp add: wrote_def set_job_def written_records_append)

lemma wrote_set_last_image: "wrote w (set_last_image uid url w) []"
  by (simp add: wrote_def set_last_image_def written_records_append)

lemma wrote_lpush: "wrote w (lpush x w) []"
  by (simp add: wrote_def lpush_def written_records_append)

lemma wrote_brpop: "wrote w (snd (brpop w)) []"
  by (simp add: wrote_def brpop_def written_records_append)

lemma generate_wrote:
  assumes "generate env w req = (res, w')"
  shows "\<exists>rs. wrote w w' rs \<and> list_all record_ok rs"
proof (cases "py_strip (prompt req) = []")
  case True
  with assms have "w' = w" by (simp add: generate_blank_prompt)
  then have "wrote w w' []" by (simp add: wrote_def)
  then show ?thesis by (intro exI [of _ "[]"]) simp
next
  case False
  obtain r w1 where r: "resolve_mode env w req = (r, w1)" by (cases "resolve_mode env w req")
  from resolve_mode_frame [OF r] have w1: "wrote w w1 []"
    by (auto simp: wrote_def written_records_append)
  show ?thesis
  proof (cases r)
    case (Inl e)
    with False r assms have "w' = w1" by (simp add: generate_refused)
    with w1 show ?thesis by (intro exI [of _ "[]"]) simp
  next
    case (Inr m)
    let ?jid = "gen_job_id env (uuids_drawn w)"
    let ?w2 = "w1\<lparr>uuids_drawn := Suc (uuids_drawn w)\<rparr>"
    from Inr r assms generate_accepted [OF False, of env w m w1]
    have w': "w' = lpush (JsonObject (job_data_of ?jid req m)) (set_job ?jid waiting_record ?w2)"
      by simp
    from w1 have "wrote w ?w2 []" by (simp add: wrote_def)
    from wrote_trans [OF this wrote_set_job [of ?w2 ?jid waiting_record]]
    have "wrote w (set_job ?jid waiting_record ?w2) [waiting_record]" by simp
    from wrote_trans [OF this wrote_lpush] w' have "wrote w w' [waiting_record]" by simp
    then show ?thesis
      by (intro exI [of _ "[waiting_record]"]) (simp add: record_ok_written)
  qed
qed

lemma process_job_wrote:
  assumes "process_job env w jd = Some (x, w')"
  shows "\<exists>rs. wrote w w' rs \<and> list_all record_ok rs"
proof (cases "read_fields jd")
  case (Inl e)
  with assms have "w' = w" by (simp add: process_job_no_fields)
  then have "wrote w w' []" by (simp add: wrote_def)
  then show ?thesis by (intro exI [of _ "[]"]) simp
next
  case (Inr fs)
  obtain jid uid m p where "fs = (jid, uid, m, p)" by (cases fs) auto
  with Inr have rf: "read_fields jd = Inr (jid, uid, m, p)" by simp
  let ?key = "format_value env jid" and ?ukey = "format_value env uid"
  let ?w1 = "set_job ?key processing_record w"
  have p: "wrote w ?w1 [processing_record]" by (rule wrote_set_job)
  have u: "wrote w (set_last_image ?ukey url ?w1) [processing_record]" for url
    using wrote_trans [OF p wrote_set_last_image [of ?w1 ?ukey url]] by simp
  have d: "wrote w (set_job ?key (done_record url) (set_last_image ?ukey url ?w1))
             [processing_record, done_record url]" for url
    using wrote_trans [OF u wrote_set_job [of _ ?key "done_record url"]] by simp
  from process_job_shapes [OF assms rf]
  consider (early) "w' = w"
    | (processing) "w' = ?w1"
    | (failed) e where "w' = set_job ?key (error_record e) ?w1"
    | (pointer) url where "w' = set_last_image ?ukey url ?w1"
    | (refused) e url where "w' = set_job ?key (error_record e) (set_last_image ?ukey url ?w1)"
    | (succeeded) url where "w' = set_job ?key (done_record url) (set_last_image ?ukey url ?w1)"
    | (unlogged) e url where
        "w' = set_job ?key (error_record e)
                (set_job ?key (done_record url) (set_last_image ?ukey url ?w1))"
    by blast
  then show ?thesis
  proof cases
    case early
    then have "wrote w w' []" by (simp add: wrote_def)
    then show ?thesis by (intro exI [of _ "[]"]) simp
  next
    case processing
    with p show ?thesis
      by (intro exI [of _ "[processing_record]"]) (simp add: record_ok_written)
  next
    case failed
    with wrote_trans [OF p wrote_set_job [of ?w1 ?key "error_record e"]]
    have "wrote w w' [processing_record, error_record e]" by simp
    then show ?thesis
      by (intro exI [of _ "[processing_record, error_record e]"]) (simp add: record_ok_written)
  next
    case pointer
    with u show ?thesis
      by (intro exI [of _ "[processing_record]"]) (simp add: record_ok_written)
  next
    case refused
    with wrote_trans [OF u wrote_set_job [of _ ?key "error_record e"]]
    have "wrote w w' [processing_record, error_record e]" by simp
    then show ?thesis
      by (intro exI [of _ "[processing_record, error_record e]"]) (simp add: record_ok_written)
  next
    case succeeded
    with d show ?thesis
      by (intro exI [of _ "[processing_record, done_record url]"]) (simp add: record_ok_written)
  next
    case unlogged
    with wrote_trans [OF d wrote_set_job [of _ ?key "error_record e"]]
    have "wrote w w' [processing_record, done_record url, error_record e]" by simp
    then show ?thesis
      by (intro exI [of _ "[processing_record, done_record url, error_record e]"])
         (simp add: record_ok_written)
  qed
qed

lemma dispatch_cases:
  assumes "dispatch env w jd = Some (x, w')"
  shows "w' = w \<or> process_job env w jd = Some (x, w')"
  using assms by (auto simp: dispatch_def split: sum.splits option.splits)

lemma dispatch_queue:
  assumes "dispatch env w jd = Some (x, w')"
  shows "queue w' = queue w"
  using dispatch_cases [OF assms] process_job_queue [of env w jd x w'] by auto

lemma dispatch_wrote:
  assumes "dispatch env w jd = Some (x, w')"
  shows "\<exists>rs. wrote w w' rs \<and> list_all record_ok rs"
proof -
  from dispatch_cases [OF assms] show ?thesis
  proof
    assume "w' = w"
    then have "wrote w w' []" by (simp add: wrote_def)
    then show ?thesis by (intro exI [of _ "[]"]) simp
  next
    assume "process_job env w jd = Some (x, w')"
    then show ?thesis by (rule process_job_wrote)
  qed
qed

lemma serve_wrote:
  "serve env w = Some r \<Longrightarrow>
     \<exists>w' rs. (r = Blocked w' \<or> (\<exists>e. r = Crashed e w')) \<and> wrote w w' rs
            \<and> list_all record_ok rs"
proof (induction "length (queue w)" arbitrary: w)
  case 0
  then have "r = Blocked w" by (simp add: serve_empty)
  moreover have "wrote w w []" by (simp add: wrote_def)
  ultimately show ?case by (intro exI [of _ w] exI [of _ "[]"]) simp
next
  case (Suc n)
  then have ne: "queue w \<noteq> []" by auto
  let ?w1 = "snd (brpop w)" and ?entry = "last (queue w)"
  have q1: "queue ?w1 = butlast (queue w)" using ne by (rule brpop_queue)
  with Suc(2) have len: "n = length (queue ?w1)" by simp
  have b: "wrote w ?w1 []" by (rule wrote_brpop)
  have same: "wrote w w []" by (simp add: wrote_def)
  show ?case
  proof (cases "redis_raises env (trace w) OpBRPop")
    case (Some e)
    with Suc(3) ne have "r = Crashed e w" by (simp add: serve_pop_raises)
    with same show ?thesis by (intro exI [of _ w] exI [of _ "[]"]) simp
  next
    case pop: None
    show ?thesis
    proof (cases "\<exists>s. ?entry = NotJson s")
      case True
      then obtain s where s: "?entry = NotJson s" ..
      show ?thesis
      proof (cases "print_raises env (LogInvalidJson s)")
        case (Some e)
        with Suc(3) have "r = Crashed e ?w1" by (simp add: serve_not_json [OF ne pop s])
        with b show ?thesis by (intro exI [of _ ?w1] exI [of _ "[]"]) simp
      next
        case None
        with Suc(3) have "serve env ?w1 = Some r" by (simp add: serve_not_json [OF ne pop s])
        from Suc(1) [OF len this] obtain w' rs
          where "r = Blocked w' \<or> (\<exists>e. r = Crashed e w')" "wrote ?w1 w' rs"
            "list_all record_ok rs"
          by blast
        with wrote_trans [OF b, of w' rs] show ?thesis by auto
      qed
    next
      case False
      then have nj: "\<forall>s. ?entry \<noteq> NotJson s" by simp
      let ?jd = "decoded ?entry"
      from Suc(3) have run: "(case dispatch env ?w1 ?jd of
                None \<Rightarrow> None
              | Some (Some e, w2) \<Rightarrow> Some (Crashed e w2)
              | Some (None, w2) \<Rightarrow> serve env w2) = Some r"
        by (simp add: serve_json [OF ne pop nj])
      then obtain x w2 where pj: "dispatch env ?w1 ?jd = Some (x, w2)"
        by (cases "dispatch env ?w1 ?jd") auto
      from dispatch_wrote [OF pj] obtain rs2
        where rs2: "wrote ?w1 w2 rs2" "list_all record_ok rs2" by blast
      from wrote_trans [OF b rs2(1)] have w2: "wrote w w2 rs2" by simp
      show ?thesis
      proof (cases x)
        case (Some e)
        with run pj have "r = Crashed e w2" by simp
        with w2 rs2(2) show ?thesis by blast
      next
        case None
        with run pj have loop: "serve env w2 = Some r" by simp
        from dispatch_queue [OF pj] len have "n = length (queue w2)" by simp
        from Suc(1) [OF this loop] obtain w' rs
          where r: "r = Blocked w' \<or> (\<exists>e. r = Crashed e w')" "wrote w2 w' rs"
            "list_all record_ok rs"
          by blast
        from wrote_trans [OF w2 r(2)] have "wrote w w' (rs2 @ rs)" .
        moreover from rs2(2) r(3) have "list_all record_ok (rs2 @ rs)" by simp
        ultimately show ?thesis using r(1) by blast
      qed
    qed
  qed
qed

lemma worker_loop_wrote:
  assumes "worker_loop env w = Some r"
  shows "\<exists>w' rs. (r = Blocked w' \<or> (\<exists>e. r = Crashed e w')) \<and> wrote w w' rs
                \<and> list_all record_ok rs"
proof (cases "print_raises env LogStarted")
  case (Some e)
  with assms have "r = Crashed e w" by (simp add: worker_loop_def)
  moreover have "wrote w w []" by (simp add: wrote_def)
  ultimately show ?thesis by (intro exI [of _ w] exI [of _ "[]"]) simp
next
  case None
  with assms have "serve env w = Some r" by (simp add: worker_loop_def)
  then show ?thesis by (rule serve_wrote)
qed

text \<open>
  Claim C1. Every job record written by \<open>generate\<close>, by \<open>process_job\<close> and by the worker
  loop is consistent: never both an image URL and an error message, neither of them
  with the status \<open>waiting\<close> or \<open>processing\<close>, the image URL and no message with \<open>done\<close>,
  the message and no image URL with \<open>error\<close>. The four records the code writes are the
  waiting, the processing, the done and the error record.
\<close>

theorem job_records_consistent:
  "(generate ienv w req = (res, w') \<longrightarrow> (\<exists>rs. wrote w w' rs \<and> list_all record_ok rs))
   \<and> (process_job env w jd = Some (x, w') \<longrightarrow> (\<exists>rs. wrote w w' rs \<and> list_all record_ok rs))
   \<and> (worker_loop env w = Some (Blocked w') \<or> worker_loop env w = Some (Crashed e w')
        \<longrightarrow> (\<exists>rs. wrote w w' rs \<and> list_all record_ok rs))
   \<and> record_ok waiting_record \<and> record_ok processing_record
   \<and> record_ok (done_record url) \<and> record_ok (error_record e')"
proof -
  have a: "generate ienv w req = (res, w') \<longrightarrow> (\<exists>rs. wrote w w' rs \<and> list_all record_ok rs)"
    using generate_wrote by blast
  have b: "process_job env w jd = Some (x, w') \<longrightarrow> (\<exists>rs. wrote w w' rs \<and> list_all record_ok rs)"
    using process_job_wrote by blast
  have c: "\<exists>rs. wrote w w' rs \<and> list_all record_ok rs"
    if "worker_loop env w = Some (Blocked w') \<or> worker_loop env w = Some (Crashed e w')"
    using that worker_loop_wrote [of env w "Blocked w'"] worker_loop_wrote [of env w "Crashed e w'"]
    by auto
  from a b c record_ok_written show ?thesis by blast
qed

text \<open>The records written by a job that succeeds.\<close>

theorem job_records_consistent_witness:
  "process_job sample_worker queued_world (decoded (JsonObject entry_a))
     = Some (None, set_job (py ''job-0'') (done_record sample_url)
                     (set_last_image (py ''u1'') sample_url
                        (set_job (py ''job-0'') processing_record queued_world)))
   \<and> (\<exists>rs. wrote queued_world
              (set_job (py ''job-0'') (done_record sample_url)
                 (set_last_image (py ''u1'') sample_url
                    (set_job (py ''job-0'') processing_record queued_world))) rs
           \<and> list_all record_ok rs)"
proof -
  note run = process_sample_a [of queued_world]
  note ok = job_records_consistent
         [where env = sample_worker and w = queued_world
            and jd = "decoded (JsonObject entry_a)",
          THEN conjunct2, THEN conjunct1, THEN mp, OF run]
  from run ok show ?thesis by (intro conjI)
qed
section \<open>The output image\<close>














end
